theory Spec2Isabelle
  imports Main "HOL-Library.Log_Nat"
begin

section \<open>JavaScript values as the hub sees them\<close>

text \<open>
  The hub reads every inbound frame with \<^verbatim>\<open>JSON.parse\<close> and then looks at properties of
  the result. TypeScript's annotations are erased at run time, so a property may hold any
  value, or be missing (\<^verbatim>\<open>undefined\<close>). Numbers are the integers used as ids and epoch
  milliseconds.
\<close>

datatype jsval =
    JUndefined
  | JNull
  | JBool bool
  | JNum int
  | JStr string
  | JArr "jsval list"
  | JObj "(string \<times> jsval) list"

text \<open>The outcome of \<^verbatim>\<open>JSON.parse(data.toString())\<close>: a syntax error or a value.\<close>

datatype raw = NotJson | Json jsval

text \<open>Truthiness, as \<^verbatim>\<open>if (v)\<close>, \<^verbatim>\<open>a && b\<close> and \<^verbatim>\<open>c ? x : y\<close> test it.\<close>

fun truthy :: "jsval \<Rightarrow> bool" where
  "truthy JUndefined = False"
| "truthy JNull = False"
| "truthy (JBool b) = b"
| "truthy (JNum n) = (n \<noteq> 0)"
| "truthy (JStr s) = (s \<noteq> [])"
| "truthy (JArr xs) = True"
| "truthy (JObj kvs) = True"

text \<open>
  Property access \<^verbatim>\<open>v.k\<close> for the keys the hub reads (\<^verbatim>\<open>type\<close>, \<^verbatim>\<open>taskId\<close>,
  \<^verbatim>\<open>changes\<close>, \<^verbatim>\<open>status\<close>, \<^verbatim>\<open>completedAt\<close>, \<^verbatim>\<open>updatedAt\<close>, \<^verbatim>\<open>userId\<close>,
  \<^verbatim>\<open>username\<close>): an object yields its own property (\<^verbatim>\<open>JSON.parse\<close> leaves each key
  once), every other value yields \<^verbatim>\<open>undefined\<close>. Access on \<^verbatim>\<open>null\<close> throws; the callers
  below treat that case before they call \<open>getProp\<close>.
\<close>

fun getProp :: "jsval \<Rightarrow> string \<Rightarrow> jsval" where
  "getProp (JObj kvs) k = (case map_of kvs k of None \<Rightarrow> JUndefined | Some v \<Rightarrow> v)"
| "getProp v k = JUndefined"

definition digit_char :: "nat \<Rightarrow> char" where
  "digit_char d = ''0123456789'' ! d"

fun digits :: "nat \<Rightarrow> string" where
  "digits n = (if n < 10 then [digit_char n] else digits (n div 10) @ [digit_char (n mod 10)])"

fun join :: "string \<Rightarrow> string list \<Rightarrow> string" where
  "join sep [] = []"
| "join sep [x] = x"
| "join sep (x # y # ys) = x @ sep @ join sep (y # ys)"

text \<open>
  String conversion, as a template literal \<^verbatim>\<open>`${v}`\<close> performs it. A number prints in
  plain decimal, which is what JavaScript does below \<open>10\<^sup>2\<^sup>1\<close>; the exponent notation of
  larger numbers is outside the model. No statement below depends on the text of a number.
\<close>

fun js_toString :: "jsval \<Rightarrow> string" where
  "js_toString JUndefined = ''undefined''"
| "js_toString JNull = ''null''"
| "js_toString (JBool b) = (if b then ''true'' else ''false'')"
| "js_toString (JNum n) = (if n < 0 then ''-'' @ digits (nat (- n)) else digits (nat n))"
| "js_toString (JStr s) = s"
| "js_toString (JArr xs) =
     join '','' (map (\<lambda>x. if x = JNull \<or> x = JUndefined then [] else js_toString x) xs)"
| "js_toString (JObj kvs) = ''[object Object]''"

section \<open>The transition table and \<open>validateTaskUpdate\<close>\<close>

text \<open>
  \<^verbatim>\<open>validTransitions\<close> is an object literal, and \<^verbatim>\<open>validTransitions[currentStatus]\<close> is an
  ordinary property lookup: it finds the four own properties first and then walks the
  prototype chain, so the names of \<^verbatim>\<open>Object.prototype\<close>'s members are found too. Those
  members are functions (and, for \<^verbatim>\<open>__proto__\<close>, the prototype object itself): truthy
  values without an \<^verbatim>\<open>includes\<close> method.
\<close>

datatype slot = Absent | Transitions "string list" | Inherited

definition object_prototype_names :: "string list" where
  "object_prototype_names =
     [''constructor'', ''__defineGetter__'', ''__defineSetter__'', ''hasOwnProperty'',
      ''__lookupGetter__'', ''__lookupSetter__'', ''isPrototypeOf'', ''propertyIsEnumerable'',
      ''toString'', ''valueOf'', ''__proto__'', ''toLocaleString'']"

definition validTransitions :: "string \<Rightarrow> slot" where
  "validTransitions k =
     (if k = ''pending'' then Transitions [''in_progress'', ''completed'', ''cancelled'']
      else if k = ''in_progress'' then Transitions [''completed'', ''cancelled'', ''pending'']
      else if k = ''completed'' then Transitions [''pending'']
      else if k = ''cancelled'' then Transitions [''pending'']
      else if k \<in> set object_prototype_names then Inherited
      else Absent)"

datatype js_error = TypeError | DbError

record validation =
  isValid :: bool
  message :: "string option"

text \<open>
  The second argument is declared \<^verbatim>\<open>string\<close> but receives \<^verbatim>\<open>parsedMessage.changes.status\<close>
  unchecked, so it is a \<open>jsval\<close>; \<^verbatim>\<open>includes\<close> compares with strict equality.
\<close>

definition validateTaskUpdate :: "string \<Rightarrow> jsval \<Rightarrow> js_error + validation" where
  "validateTaskUpdate currentStatus newStatus =
     (case validTransitions currentStatus of
        Absent \<Rightarrow>
          Inr \<lparr>isValid = False, message = Some (''Invalid current status: '' @ currentStatus)\<rparr>
      | Inherited \<Rightarrow> Inl TypeError
      | Transitions allowed \<Rightarrow>
          if newStatus \<notin> set (map JStr allowed) then
            Inr \<lparr>isValid = False,
                 message = Some (''Cannot change task status from '' @ [CHR 0x27] @ currentStatus
                   @ [CHR 0x27] @ '' to '' @ [CHR 0x27] @ js_toString newStatus @ [CHR 0x27]
                   @ ''. Valid transitions are: '' @ join '', '' allowed)\<rparr>
          else Inr \<lparr>isValid = True, message = None\<rparr>)"

section \<open>JavaScript numbers\<close>

text \<open>
  A JavaScript number is an IEEE 754 binary64 value. The finite ones are rationals, and
  every arithmetic operation returns the exact result rounded to the nearest value with a
  53-bit significand, ties to the even significand (\<open>fl\<close>). Overflow and subnormal results
  are left out: the metrics below stay between \<open>2\<^sup>-\<^sup>3\<^sup>1\<close> and \<open>2\<^sup>4\<^sup>5\<close>.
\<close>

definition ilog2 :: "rat \<Rightarrow> int" where
  "ilog2 x =
     (let (p, q) = quotient_of x;
          k = bitlen p - bitlen q
      in if 2 powi k \<le> x then k else k - 1)"

definition round_half_even :: "rat \<Rightarrow> int" where
  "round_half_even m =
     (let f = \<lfloor>m\<rfloor>; r = m - of_int f
      in if r < 1 / 2 then f else if 1 / 2 < r then f + 1 else if even f then f else f + 1)"

definition fl :: "rat \<Rightarrow> rat" where
  "fl x =
     (if x = 0 then 0
      else let u = 2 powi (ilog2 \<bar>x\<bar> - 52)
           in sgn x * of_int (round_half_even (\<bar>x\<bar> / u)) * u)"

text \<open>\<^verbatim>\<open>a / b\<close> and \<^verbatim>\<open>a * b\<close>; the divisor is non-zero at both places the hub divides.\<close>

definition js_div :: "rat \<Rightarrow> rat \<Rightarrow> rat" where
  "js_div a b = fl (a / b)"

definition js_mul :: "rat \<Rightarrow> rat \<Rightarrow> rat" where
  "js_mul a b = fl (a * b)"

text \<open>\<^verbatim>\<open>Math.round\<close>: the nearest integer, a tie going towards \<open>+\<infinity>\<close>.\<close>

definition Math_round :: "rat \<Rightarrow> int" where
  "Math_round x = \<lfloor>x + 1 / 2\<rfloor>"

section \<open>The data store\<close>

text \<open>
  Modelled from the spec: the table declarations (\<^verbatim>\<open>@db/schema\<close>) are not among the
  sources. The spec's data model gives a task a status drawn from pending, in_progress,
  completed and cancelled, a deadline, a completion timestamp and an update timestamp; the
  queries of the hub name the remaining columns. Timestamps are epoch milliseconds; a
  nullable column is an \<open>option\<close>.
\<close>

datatype task_status = Pending | InProgress | Completed | Cancelled

fun status_text :: "task_status \<Rightarrow> string" where
  "status_text Pending = ''pending''"
| "status_text InProgress = ''in_progress''"
| "status_text Completed = ''completed''"
| "status_text Cancelled = ''cancelled''"

definition status_of_jsval :: "jsval \<Rightarrow> task_status option" where
  "status_of_jsval v =
     (if v = JStr ''pending'' then Some Pending
      else if v = JStr ''in_progress'' then Some InProgress
      else if v = JStr ''completed'' then Some Completed
      else if v = JStr ''cancelled'' then Some Cancelled
      else None)"

record task =
  t_id :: int
  t_status :: task_status
  t_assignedTo :: "int option"
  t_deadline :: "int option"
  t_completedAt :: "int option"
  t_updatedAt :: int

record activity =
  a_id :: int
  a_taskId :: int
  a_userId :: int
  a_action :: string
  a_createdAt :: int

record user =
  u_id :: int
  u_username :: string
  u_fullName :: string
  u_role :: string

record store =
  tasks :: "task list"
  taskActivities :: "activity list"
  users :: "user list"
  commentAuthors :: "int list"
  activitySerial :: int

text \<open>
  \<open>commentAuthors\<close> is the \<^verbatim>\<open>userId\<close> column of \<^verbatim>\<open>documentComments\<close>, one entry per row;
  \<open>activitySerial\<close> is the sequence behind \<^verbatim>\<open>taskActivities.id\<close>.

  \<^verbatim>\<open>select().from(tasks).where(eq(tasks.id, id)).limit(1)\<close>, destructured as
  \<^verbatim>\<open>[currentTask]\<close>: the first matching row, or \<^verbatim>\<open>undefined\<close>.
\<close>

definition select_task :: "store \<Rightarrow> int \<Rightarrow> task option" where
  "select_task s i = find (\<lambda>t. t_id t = i) (tasks s)"

text \<open>
  \<^verbatim>\<open>update(tasks).set({status, completedAt, updatedAt}).where(eq(tasks.id, id)).returning()\<close>,
  destructured as \<^verbatim>\<open>[updatedTask]\<close>: one statement that writes the three columns of every
  matching row and returns the first written row, or \<^verbatim>\<open>undefined\<close>.
\<close>

definition set_columns :: "task_status \<Rightarrow> int option \<Rightarrow> int \<Rightarrow> task \<Rightarrow> task" where
  "set_columns st ca ua t = t\<lparr>t_status := st, t_completedAt := ca, t_updatedAt := ua\<rparr>"

definition update_task ::
  "store \<Rightarrow> int \<Rightarrow> task_status \<Rightarrow> int option \<Rightarrow> int \<Rightarrow> store \<times> task option" where
  "update_task s i st ca ua =
     (s\<lparr>tasks := map (\<lambda>t. if t_id t = i then set_columns st ca ua t else t) (tasks s)\<rparr>,
      map_option (set_columns st ca ua) (find (\<lambda>t. t_id t = i) (tasks s)))"

text \<open>\<^verbatim>\<open>insert(taskActivities).values({taskId, userId, action, createdAt}).returning()\<close>.\<close>

definition insert_activity :: "store \<Rightarrow> int \<Rightarrow> int \<Rightarrow> string \<Rightarrow> int \<Rightarrow> store \<times> activity" where
  "insert_activity s tid uid act now =
     (let a = \<lparr>a_id = activitySerial s, a_taskId = tid, a_userId = uid, a_action = act,
                a_createdAt = now\<rparr>
      in (s\<lparr>taskActivities := taskActivities s @ [a], activitySerial := activitySerial s + 1\<rparr>, a))"

text \<open>\<^verbatim>\<open>select({ count: sql`count(*)::integer` }).from(table).where(cond)\<close>.\<close>

definition count_rows :: "('a \<Rightarrow> bool) \<Rightarrow> 'a list \<Rightarrow> int" where
  "count_rows cond table = int (length (filter cond table))"

text \<open>
  A query parameter bound to an integer column. The driver and the column declarations
  are not among the sources: the model takes a JSON number as that integer and lets the
  query fail on every other value, although a database may also accept a numeric string
  such as \<^verbatim>\<open>"1"\<close>. The statements below are about ids that are JSON numbers, as the
  message envelope declares them.
\<close>

fun db_int :: "jsval \<Rightarrow> int option" where
  "db_int (JNum n) = Some n"
| "db_int v = None"

section \<open>\<open>calculateTeamPerformance\<close>\<close>

record metrics =
  tasksCompleted :: int
  onTimeCompletion :: int
  documentComments :: int
  collaborationScore :: int
  totalScore :: int

record member =
  m_id :: int
  m_username :: string
  m_fullName :: string
  m_role :: string
  m_metrics :: metrics

text \<open>
  The five counts of one member and the arithmetic on them. In SQL a comparison with
  \<^verbatim>\<open>NULL\<close> is not true, so an unassigned task matches no member and a task without
  deadline or completion timestamp is not on time. Sums and products of the counts are
  integers far below \<open>2\<^sup>5\<^sup>3\<close> and therefore exact; the two divisions and the product with
  100 round.
\<close>

definition onTimeCompletionRate :: "int \<Rightarrow> int \<Rightarrow> int" where
  "onTimeCompletionRate onTimeTasks_count totalTasks_count =
     (if totalTasks_count > 0
      then Math_round (js_mul (js_div (of_int onTimeTasks_count) (of_int totalTasks_count)) 100)
      else 100)"

definition memberPerformance :: "store \<Rightarrow> user \<Rightarrow> member" where
  "memberPerformance s mem =
     (let tasksCompleted_count =
            count_rows (\<lambda>t. t_assignedTo t = Some (u_id mem) \<and> t_status t = Completed) (tasks s);
          totalTasks_count =
            count_rows (\<lambda>t. t_assignedTo t = Some (u_id mem)) (tasks s);
          onTimeTasks_count =
            count_rows (\<lambda>t. t_assignedTo t = Some (u_id mem) \<and> t_status t = Completed \<and>
                            (case (t_completedAt t, t_deadline t) of
                               (Some c, Some d) \<Rightarrow> c \<le> d
                             | _ \<Rightarrow> False)) (tasks s);
          rate = onTimeCompletionRate onTimeTasks_count totalTasks_count;
          comments_count = count_rows (\<lambda>a. a = u_id mem) (commentAuthors s);
          activities_count = count_rows (\<lambda>a. a_userId a = u_id mem) (taskActivities s);
          collaboration = min 100 activities_count;
          total =
            Math_round (js_div (of_int (tasksCompleted_count * 40 + rate * 30
                                        + min (comments_count * 10) 100 * 15
                                        + collaboration * 15)) 100)
      in \<lparr>m_id = u_id mem, m_username = u_username mem, m_fullName = u_fullName mem,
          m_role = u_role mem,
          m_metrics = \<lparr>tasksCompleted = tasksCompleted_count,
                       onTimeCompletion = rate,
                       documentComments = comments_count,
                       collaborationScore = collaboration,
                       totalScore = total\<rparr>\<rparr>)"

text \<open>
  The member queries read the store as it is when the computation completes; the model
  takes them as one snapshot.
\<close>

definition calculateTeamPerformance :: "store \<Rightarrow> member list" where
  "calculateTeamPerformance s =
     map (memberPerformance s) (filter (\<lambda>u. u_role u = ''team_member'') (users s))"

section \<open>The hub\<close>

type_synonym cid = string

datatype ready_state = CONNECTING | OPEN | CLOSING | CLOSED

text \<open>
  A \<^verbatim>\<open>Client\<close>; its \<^verbatim>\<open>ws\<close> is the socket kept under the same connection id. The
  handshake stores whatever truthy values it received.
\<close>

record client =
  c_id :: cid
  c_userId :: jsval
  c_username :: jsval

record activity_info =
  ai_id :: int
  ai_action :: string
  ai_createdAt :: int
  ai_user_id :: jsval
  ai_user_username :: jsval

text \<open>The frames the hub sends, before \<^verbatim>\<open>JSON.stringify\<close>.\<close>

datatype outbound =
    Connected
  | ErrorMsg string "string option"
  | TaskUpdate task activity_info
  | TaskUpdateSuccess task activity_info
  | TeamPerformance "member list"

text \<open>\<open>authPending\<close>: the \<^verbatim>\<open>once('message')\<close> listener has not fired yet.\<close>

record socket =
  readyState :: ready_state
  authPending :: bool

text \<open>What an \<^verbatim>\<open>async\<close> handler holds across an \<^verbatim>\<open>await\<close>: \<^verbatim>\<open>clientId\<close>, \<^verbatim>\<open>client\<close>, \<^verbatim>\<open>parsedMessage\<close>.\<close>

record request =
  q_clientId :: cid
  q_client :: client
  q_message :: jsval

datatype cont =
    AwaitSelect request
  | AwaitUpdate request task
  | AwaitInsert request task "task option" int
  | AwaitPerformance

text \<open>
  The state: the \<^verbatim>\<open>clients\<close> map and the \<^verbatim>\<open>performanceSubscribers\<close> set in insertion
  order (the order \<^verbatim>\<open>forEach\<close> visits them), the sockets, the store, the handlers
  suspended at an \<^verbatim>\<open>await\<close>, every frame sent so far with its destination, and the number
  of promises rejected with nobody to catch them.
\<close>

record world =
  clients :: "(cid \<times> client) list"
  performanceSubscribers :: "cid list"
  sockets :: "cid \<Rightarrow> socket option"
  db :: store
  pending :: "cont list"
  outbox :: "(cid \<times> outbound) list"
  unhandledRejections :: nat

fun map_set :: "'k \<Rightarrow> 'v \<Rightarrow> ('k \<times> 'v) list \<Rightarrow> ('k \<times> 'v) list" where
  "map_set k v [] = [(k, v)]"
| "map_set k v (p # ps) = (if fst p = k then (k, v) # ps else p # map_set k v ps)"

definition map_delete :: "'k \<Rightarrow> ('k \<times> 'v) list \<Rightarrow> ('k \<times> 'v) list" where
  "map_delete k ps = filter (\<lambda>p. fst p \<noteq> k) ps"

definition set_add :: "'a \<Rightarrow> 'a list \<Rightarrow> 'a list" where
  "set_add x xs = (if x \<in> set xs then xs else xs @ [x])"

definition set_delete :: "'a \<Rightarrow> 'a list \<Rightarrow> 'a list" where
  "set_delete x xs = filter (\<lambda>y. y \<noteq> x) xs"

definition is_open :: "world \<Rightarrow> cid \<Rightarrow> bool" where
  "is_open w c = (case sockets w c of None \<Rightarrow> False | Some s \<Rightarrow> readyState s = OPEN)"

text \<open>
  \<^verbatim>\<open>ws.send(JSON.stringify(m))\<close>. A frame handed to a socket that is not open reaches
  nobody; the model drops it.
\<close>

definition ws_send :: "cid \<Rightarrow> outbound \<Rightarrow> world \<Rightarrow> world" where
  "ws_send c m w = (if is_open w c then w\<lparr>outbox := outbox w @ [(c, m)]\<rparr> else w)"

text \<open>\<^verbatim>\<open>ws.close()\<close> starts the closing handshake; the \<^verbatim>\<open>close\<close> event comes later.\<close>

definition ws_close :: "cid \<Rightarrow> world \<Rightarrow> world" where
  "ws_close c w =
     (case sockets w c of
        None \<Rightarrow> w
      | Some s \<Rightarrow>
          if readyState s = OPEN \<or> readyState s = CONNECTING
          then w\<lparr>sockets := (sockets w)(c \<mapsto> s\<lparr>readyState := CLOSING\<rparr>)\<rparr>
          else w)"

text \<open>
  \<^verbatim>\<open>new Date(v)\<close> as epoch milliseconds, \<open>None\<close> for an invalid date. \<^verbatim>\<open>Date.parse\<close> is the
  runtime's; the model takes it as the parameter \<open>dateParse\<close>.
\<close>

fun new_Date :: "(string \<Rightarrow> int option) \<Rightarrow> jsval \<Rightarrow> int option" where
  "new_Date dateParse JUndefined = None"
| "new_Date dateParse JNull = Some 0"
| "new_Date dateParse (JBool b) = Some (if b then 1 else 0)"
| "new_Date dateParse (JNum n) = (if \<bar>n\<bar> \<le> 8640000000000000 then Some n else None)"
| "new_Date dateParse (JStr s) = dateParse s"
| "new_Date dateParse v = dateParse (js_toString v)"

definition broadcastTeamPerformance :: "world \<Rightarrow> world" where
  "broadcastTeamPerformance w = w\<lparr>pending := pending w @ [AwaitPerformance]\<rparr>"

text \<open>The rest of \<^verbatim>\<open>broadcastTeamPerformance\<close>, once the metrics have arrived.\<close>

definition deliverTeamPerformance :: "world \<Rightarrow> world" where
  "deliverTeamPerformance w =
     (let msg = TeamPerformance (calculateTeamPerformance (db w))
      in foldl (\<lambda>acc clientId.
                  case map_of (clients acc) clientId of
                    None \<Rightarrow> acc
                  | Some cl \<Rightarrow> if is_open acc clientId then ws_send clientId msg acc else acc)
           w (performanceSubscribers w))"

definition broadcastToClients :: "outbound \<Rightarrow> cid \<Rightarrow> world \<Rightarrow> world" where
  "broadcastToClients msg excludeClientId w =
     foldl (\<lambda>acc (clientId, cl).
              if excludeClientId \<noteq> [] \<and> clientId = excludeClientId then acc
              else if is_open acc clientId then ws_send clientId msg acc
              else acc)
       w (clients w)"

definition database_error :: "cid \<Rightarrow> world \<Rightarrow> world" where
  "database_error c w =
     ws_send c (ErrorMsg ''DATABASE_ERROR'' (Some ''Failed to update task in database'')) w"

text \<open>
  The \<^verbatim>\<open>on('message')\<close> listener up to its first \<^verbatim>\<open>await\<close>. On the value \<^verbatim>\<open>null\<close> the
  read of \<^verbatim>\<open>parsedMessage.type\<close> throws outside the \<^verbatim>\<open>try\<close> block.
\<close>

definition on_message :: "world \<Rightarrow> cid \<Rightarrow> raw \<Rightarrow> world" where
  "on_message w clientId data =
     (case data of
        NotJson \<Rightarrow>
          ws_send clientId (ErrorMsg ''MESSAGE_PARSE_ERROR'' (Some ''Invalid message format'')) w
      | Json parsedMessage \<Rightarrow>
          (case map_of (clients w) clientId of
             None \<Rightarrow> w
           | Some cl \<Rightarrow>
               if parsedMessage = JNull
               then w\<lparr>unhandledRejections := Suc (unhandledRejections w)\<rparr>
               else
                 let w1 = (if getProp parsedMessage ''type'' = JStr ''subscribe_team_performance''
                           then broadcastTeamPerformance
                                  (w\<lparr>performanceSubscribers :=
                                       set_add clientId (performanceSubscribers w)\<rparr>)
                           else w)
                 in if getProp parsedMessage ''type'' = JStr ''task_update''
                       \<and> truthy (getProp parsedMessage ''taskId'')
                       \<and> truthy (getProp parsedMessage ''changes'')
                    then w1\<lparr>pending := pending w1 @
                              [AwaitSelect \<lparr>q_clientId = clientId, q_client = cl,
                                            q_message = parsedMessage\<rparr>]\<rparr>
                    else w1))"

text \<open>
  The \<^verbatim>\<open>once('message')\<close> listener. Destructuring \<^verbatim>\<open>null\<close> throws inside the \<^verbatim>\<open>try\<close>
  block, like a syntax error of \<^verbatim>\<open>JSON.parse\<close>.
\<close>

definition on_auth :: "world \<Rightarrow> cid \<Rightarrow> raw \<Rightarrow> world" where
  "on_auth w clientId data =
     (case data of
        NotJson \<Rightarrow> ws_close clientId w
      | Json v \<Rightarrow>
          if v = JNull then ws_close clientId w
          else
            let userId = getProp v ''userId''; username = getProp v ''username''
            in if truthy userId \<and> truthy username
               then ws_send clientId Connected
                      (w\<lparr>clients := map_set clientId
                            \<lparr>c_id = clientId, c_userId = userId, c_username = username\<rparr>
                            (clients w)\<rparr>)
               else w)"

text \<open>
  The listener after \<^verbatim>\<open>await db.select()...\<close>; \<open>ok\<close> tells whether the query resolved.
\<close>

definition after_select :: "world \<Rightarrow> request \<Rightarrow> bool \<Rightarrow> world" where
  "after_select w q ok =
     (if \<not> ok then database_error (q_clientId q) w
      else case db_int (getProp (q_message q) ''taskId'') of
        None \<Rightarrow> database_error (q_clientId q) w
      | Some i \<Rightarrow>
          (case select_task (db w) i of
             None \<Rightarrow>
               ws_send (q_clientId q) (ErrorMsg ''TASK_NOT_FOUND'' (Some ''Task not found'')) w
           | Some currentTask \<Rightarrow>
               (case validateTaskUpdate (status_text (t_status currentTask))
                       (getProp (getProp (q_message q) ''changes'') ''status'') of
                  Inl err \<Rightarrow> database_error (q_clientId q) w
                | Inr validation \<Rightarrow>
                    if \<not> isValid validation
                    then ws_send (q_clientId q)
                           (ErrorMsg ''INVALID_STATUS_TRANSITION'' (message validation)) w
                    else w\<lparr>pending := pending w @ [AwaitUpdate q currentTask]\<rparr>)))"

text \<open>
  The \<^verbatim>\<open>update\<close> statement. An invalid date cannot be written, and a status outside the
  column's domain cannot either (validation has excluded it): the statement fails. When it
  has returned, the listener builds the \<^verbatim>\<open>insert\<close> with \<^verbatim>\<open>createdAt: new Date()\<close>, the
  time \<open>now\<close> of this step.
\<close>

definition after_update ::
  "(string \<Rightarrow> int option) \<Rightarrow> world \<Rightarrow> request \<Rightarrow> task \<Rightarrow> bool \<Rightarrow> int \<Rightarrow> world" where
  "after_update dateParse w q currentTask ok now =
     (let changes = getProp (q_message q) ''changes'';
          completedAt = (if truthy (getProp changes ''completedAt'')
                         then map_option Some (new_Date dateParse (getProp changes ''completedAt''))
                         else Some None);
          updatedAt = new_Date dateParse (getProp changes ''updatedAt'')
      in if \<not> ok then database_error (q_clientId q) w
         else case (db_int (getProp (q_message q) ''taskId''),
                    status_of_jsval (getProp changes ''status''), completedAt, updatedAt) of
           (Some i, Some st, Some ca, Some ua) \<Rightarrow>
             (let (s', updatedTask) = update_task (db w) i st ca ua
              in w\<lparr>db := s',
                   pending := pending w @ [AwaitInsert q currentTask updatedTask now]\<rparr>)
         | _ \<Rightarrow> database_error (q_clientId q) w)"

text \<open>The \<^verbatim>\<open>insert\<close> statement and everything after it.\<close>

definition after_insert :: "world \<Rightarrow> request \<Rightarrow> task \<Rightarrow> task option \<Rightarrow> int \<Rightarrow> bool \<Rightarrow> world" where
  "after_insert w q currentTask updatedTask createdAt ok =
     (if \<not> ok then database_error (q_clientId q) w
      else case (db_int (getProp (q_message q) ''taskId''), db_int (c_userId (q_client q))) of
        (Some i, Some uid) \<Rightarrow>
          (let (s', act) =
                 insert_activity (db w) i uid
                   (''Status changed from '' @ status_text (t_status currentTask) @ '' to ''
                      @ js_toString (getProp (getProp (q_message q) ''changes'') ''status''))
                   createdAt;
               w1 = w\<lparr>db := s'\<rparr>;
               info = \<lparr>ai_id = a_id act, ai_action = a_action act, ai_createdAt = a_createdAt act,
                       ai_user_id = c_userId (q_client q),
                       ai_user_username = c_username (q_client q)\<rparr>
           in case updatedTask of
                None \<Rightarrow> w1
              | Some t \<Rightarrow>
                  ws_send (q_clientId q) (TaskUpdateSuccess t info)
                    (broadcastToClients (TaskUpdate t info) (q_clientId q) w1))
      | _ \<Rightarrow> database_error (q_clientId q) w)"

definition resume :: "(string \<Rightarrow> int option) \<Rightarrow> world \<Rightarrow> cont \<Rightarrow> bool \<Rightarrow> int \<Rightarrow> world" where
  "resume dateParse w k ok now =
     (case k of
        AwaitSelect q \<Rightarrow> after_select w q ok
      | AwaitUpdate q currentTask \<Rightarrow> after_update dateParse w q currentTask ok now
      | AwaitInsert q currentTask updatedTask createdAt \<Rightarrow>
          after_insert w q currentTask updatedTask createdAt ok
      | AwaitPerformance \<Rightarrow>
          if ok then deliverTeamPerformance w
          else w\<lparr>unhandledRejections := Suc (unhandledRejections w)\<rparr>)"

text \<open>
  What happens to the hub: a connection arrives with a fresh id, a frame arrives on a
  connection, a connection's \<^verbatim>\<open>close\<close> event fires, the 30-second timer fires, the awaited
  query of the \<open>i\<close>-th suspended handler completes, and the other routes of the server
  change the store.
\<close>

datatype event =
    Connect cid
  | Message cid raw
  | Close cid
  | Tick
  | Resume nat bool int
  | External store

definition step :: "(string \<Rightarrow> int option) \<Rightarrow> world \<Rightarrow> event \<Rightarrow> world" where
  "step dateParse w e =
     (case e of
        Connect c \<Rightarrow>
          (case sockets w c of
             None \<Rightarrow> w\<lparr>sockets := (sockets w)(c \<mapsto> \<lparr>readyState = OPEN, authPending = True\<rparr>)\<rparr>
           | Some s \<Rightarrow> w)
      | Message c data \<Rightarrow>
          (case sockets w c of
             None \<Rightarrow> w
           | Some s \<Rightarrow>
               if readyState s = CLOSED then w
               else
                 let w1 = on_message w c data
                 in if authPending s
                    then on_auth (w1\<lparr>sockets := (sockets w1)(c \<mapsto> s\<lparr>authPending := False\<rparr>)\<rparr>)
                           c data
                    else w1)
      | Close c \<Rightarrow>
          (case sockets w c of
             None \<Rightarrow> w
           | Some s \<Rightarrow>
               if readyState s = CLOSED then w
               else w\<lparr>sockets := (sockets w)(c \<mapsto> s\<lparr>readyState := CLOSED\<rparr>),
                      performanceSubscribers := set_delete c (performanceSubscribers w),
                      clients := map_delete c (clients w)\<rparr>)
      | Tick \<Rightarrow> (if performanceSubscribers w \<noteq> [] then broadcastTeamPerformance w else w)
      | Resume i ok now \<Rightarrow>
          (if i < length (pending w)
           then resume dateParse (w\<lparr>pending := take i (pending w) @ drop (Suc i) (pending w)\<rparr>)
                  (pending w ! i) ok now
           else w)
      | External s \<Rightarrow> w\<lparr>db := s\<rparr>)"

definition run :: "(string \<Rightarrow> int option) \<Rightarrow> world \<Rightarrow> event list \<Rightarrow> world" where
  "run dateParse w es = foldl (step dateParse) w es"

definition init :: "store \<Rightarrow> world" where
  "init s = \<lparr>clients = [], performanceSubscribers = [], sockets = (\<lambda>c. None), db = s,
             pending = [], outbox = [], unhandledRejections = 0\<rparr>"

section \<open>The transition table as the specification gives it\<close>

text \<open>
  The table of the specification, written from its words: pending may become in_progress,
  completed or cancelled; in_progress may become completed, cancelled or pending;
  completed and cancelled may only become pending.
\<close>

definition spec_allowed :: "task_status \<Rightarrow> task_status list" where
  "spec_allowed cur =
     (case cur of
        Pending \<Rightarrow> [InProgress, Completed, Cancelled]
      | InProgress \<Rightarrow> [Completed, Cancelled, Pending]
      | Completed \<Rightarrow> [Pending]
      | Cancelled \<Rightarrow> [Pending])"

definition in_table :: "task_status \<Rightarrow> jsval \<Rightarrow> bool" where
  "in_table cur v = (v \<in> set (map (\<lambda>n. JStr (status_text n)) (spec_allowed cur)))"

definition rejection_text :: "task_status \<Rightarrow> jsval \<Rightarrow> string" where
  "rejection_text cur v =
     ''Cannot change task status from '' @ [CHR 0x27] @ status_text cur @ [CHR 0x27] @ '' to ''
       @ [CHR 0x27] @ js_toString v @ [CHR 0x27] @ ''. Valid transitions are: ''
       @ join '', '' (map status_text (spec_allowed cur))"

text \<open>The status a \<^verbatim>\<open>task_update\<close> message asks for: \<^verbatim>\<open>parsedMessage.changes.status\<close>.\<close>

definition requested :: "jsval \<Rightarrow> jsval" where
  "requested pm = getProp (getProp pm ''changes'') ''status''"

section \<open>Parts of the handler named for the statements below\<close>

text \<open>
  The values the \<^verbatim>\<open>update\<close> statement writes, as \<^verbatim>\<open>.set({...})\<close> computes them from the
  message alone: \<^verbatim>\<open>completedAt\<close> is the payload's date when the payload's field is truthy
  and \<^verbatim>\<open>null\<close> otherwise; the outer \<open>None\<close> is an invalid date.
\<close>

definition completedAt_of :: "(string \<Rightarrow> int option) \<Rightarrow> jsval \<Rightarrow> int option option" where
  "completedAt_of dateParse pm =
     (let v = getProp (getProp pm ''changes'') ''completedAt''
      in if truthy v then map_option Some (new_Date dateParse v) else Some None)"

definition updatedAt_of :: "(string \<Rightarrow> int option) \<Rightarrow> jsval \<Rightarrow> int option" where
  "updatedAt_of dateParse pm = new_Date dateParse (getProp (getProp pm ''changes'') ''updatedAt'')"

text \<open>The \<^verbatim>\<open>action\<close> text of the activity record and the activity as the two events carry it.\<close>

definition activity_text :: "task \<Rightarrow> jsval \<Rightarrow> string" where
  "activity_text currentTask pm =
     ''Status changed from '' @ status_text (t_status currentTask) @ '' to ''
       @ js_toString (requested pm)"

definition info_of :: "client \<Rightarrow> activity \<Rightarrow> activity_info" where
  "info_of cl a =
     \<lparr>ai_id = a_id a, ai_action = a_action a, ai_createdAt = a_createdAt a,
      ai_user_id = c_userId cl, ai_user_username = c_username cl\<rparr>"

section \<open>The invariant and the metrics as the specification gives them\<close>

text \<open>No dangling subscription: every subscribed connection id is a key of the registry.\<close>

definition subscribers_registered :: "world \<Rightarrow> bool" where
  "subscribers_registered w = (set (performanceSubscribers w) \<subseteq> fst ` set (clients w))"

text \<open>
  The registry is a \<^verbatim>\<open>Map\<close> and the subscriptions a \<^verbatim>\<open>Set\<close>: no key twice. A registered
  connection has an open socket whose handshake listener has fired, and a socket whose
  handshake listener has not fired is open or already closed.
\<close>

definition sound_registry :: "world \<Rightarrow> bool" where
  "sound_registry w =
     (distinct (map fst (clients w)) \<and> distinct (performanceSubscribers w) \<and>
      (\<forall>c \<in> fst ` set (clients w). sockets w c = Some \<lparr>readyState = OPEN, authPending = False\<rparr>) \<and>
      (\<forall>c s. sockets w c = Some s \<and> authPending s \<longrightarrow>
         readyState s = OPEN \<or> readyState s = CLOSED))"

text \<open>A connection after its \<^verbatim>\<open>close\<close> event: closed, not subscribed, not registered.\<close>

definition gone :: "cid \<Rightarrow> world \<Rightarrow> bool" where
  "gone c w =
     ((case sockets w c of None \<Rightarrow> False | Some s \<Rightarrow> readyState s = CLOSED) \<and>
      c \<notin> set (performanceSubscribers w) \<and> c \<notin> fst ` set (clients w))"

text \<open>
  The reference definitions of the metrics, in exact arithmetic: a task is on time when it
  is completed and its completion timestamp is not after its deadline; the on-time rate is
  the percentage of a member's tasks that are on time, rounded to the nearest integer, and
  100 for a member without tasks; the total score is the weighted sum over 100, rounded.
\<close>

definition nearest_integer :: "rat \<Rightarrow> int" where
  "nearest_integer x = \<lfloor>x + 1 / 2\<rfloor>"

definition spec_onTimeCompletion :: "int \<Rightarrow> int \<Rightarrow> int" where
  "spec_onTimeCompletion onTimeCompleted_count totalAssigned_count =
     (if totalAssigned_count = 0 then 100
      else nearest_integer (of_int onTimeCompleted_count / of_int totalAssigned_count * 100))"

definition spec_totalScore :: "int \<Rightarrow> int \<Rightarrow> int \<Rightarrow> int \<Rightarrow> int" where
  "spec_totalScore completed onTime comments collaboration =
     nearest_integer (of_int (completed * 40 + onTime * 30 + min (comments * 10) 100 * 15
                              + collaboration * 15) / 100)"

definition assigned :: "store \<Rightarrow> int \<Rightarrow> task list" where
  "assigned s uid = filter (\<lambda>t. t_assignedTo t = Some uid) (tasks s)"

definition on_time :: "task \<Rightarrow> bool" where
  "on_time t =
     (t_status t = Completed \<and>
      (case t_completedAt t of
         None \<Rightarrow> False
       | Some c \<Rightarrow> (case t_deadline t of None \<Rightarrow> False | Some d \<Rightarrow> c \<le> d)))"

definition totalAssigned :: "store \<Rightarrow> int \<Rightarrow> int" where
  "totalAssigned s uid = int (length (assigned s uid))"

definition onTimeCompleted :: "store \<Rightarrow> int \<Rightarrow> int" where
  "onTimeCompleted s uid = int (length (filter on_time (assigned s uid)))"

definition activityRecords :: "store \<Rightarrow> int \<Rightarrow> int" where
  "activityRecords s uid = int (length (filter (\<lambda>a. a_userId a = uid) (taskActivities s)))"

section \<open>Concrete stores, worlds and messages\<close>

definition ann :: user where
  "ann = \<lparr>u_id = 7, u_username = ''ann'', u_fullName = ''Ann Lee'', u_role = ''team_member''\<rparr>"

definition root_user :: user where
  "root_user = \<lparr>u_id = 1, u_username = ''root'', u_fullName = ''Root'', u_role = ''admin''\<rparr>"

text \<open>Ann has five tasks, all completed on time, three comments and two activity records.\<close>

definition review_store :: store where
  "review_store =
     \<lparr>tasks = map (\<lambda>i. \<lparr>t_id = i, t_status = Completed, t_assignedTo = Some 7,
                          t_deadline = Some 2000, t_completedAt = Some 1000,
                          t_updatedAt = 1000\<rparr>) [1, 2, 3, 4, 5],
      taskActivities =
        [\<lparr>a_id = 1, a_taskId = 1, a_userId = 7,
          a_action = ''Status changed from pending to completed'', a_createdAt = 1000\<rparr>,
         \<lparr>a_id = 2, a_taskId = 2, a_userId = 7,
          a_action = ''Status changed from pending to completed'', a_createdAt = 1000\<rparr>],
      users = [root_user, ann],
      commentAuthors = [7, 7, 7],
      activitySerial = 3\<rparr>"

text \<open>Ann has forty tasks; the first twenty-three are completed on time.\<close>

definition sprint_store :: store where
  "sprint_store =
     \<lparr>tasks = map (\<lambda>i. \<lparr>t_id = i, t_status = (if i \<le> 23 then Completed else Pending),
                          t_assignedTo = Some 7, t_deadline = Some 2000,
                          t_completedAt = (if i \<le> 23 then Some 1000 else None),
                          t_updatedAt = 1000\<rparr>) [1..40],
      taskActivities = [],
      users = [root_user, ann],
      commentAuthors = [],
      activitySerial = 1\<rparr>"

definition task_one :: task where
  "task_one = \<lparr>t_id = 1, t_status = InProgress, t_assignedTo = Some 7, t_deadline = Some 2000,
                t_completedAt = None, t_updatedAt = 1000\<rparr>"

definition hub_store :: store where
  "hub_store = \<lparr>tasks = [task_one], taskActivities = [], users = [root_user, ann],
                 commentAuthors = [], activitySerial = 1\<rparr>"

definition empty_store :: store where
  "empty_store = \<lparr>tasks = [], taskActivities = [], users = [root_user, ann],
                   commentAuthors = [], activitySerial = 1\<rparr>"

definition ann_client :: client where
  "ann_client = \<lparr>c_id = ''c1'', c_userId = JNum 7, c_username = JStr ''ann''\<rparr>"

definition bob_client :: client where
  "bob_client = \<lparr>c_id = ''c2'', c_userId = JNum 8, c_username = JStr ''bob''\<rparr>"

definition open_socket :: socket where
  "open_socket = \<lparr>readyState = OPEN, authPending = False\<rparr>"

text \<open>Two authenticated open connections; the second has subscribed.\<close>

definition hub_world :: world where
  "hub_world =
     \<lparr>clients = [(''c1'', ann_client), (''c2'', bob_client)],
      performanceSubscribers = [''c2''],
      sockets = (\<lambda>c. if c = ''c1'' \<or> c = ''c2'' then Some open_socket else None),
      db = hub_store,
      pending = [],
      outbox = [],
      unhandledRejections = 0\<rparr>"

definition iso_dates :: "string \<Rightarrow> int option" where
  "iso_dates s = (if s = ''2024-01-01T00:00:00.000Z'' then Some 1704067200000 else None)"

definition update_message :: "string \<Rightarrow> jsval \<Rightarrow> jsval" where
  "update_message status completedAt =
     JObj [(''type'', JStr ''task_update''), (''taskId'', JNum 1),
           (''changes'', JObj [(''status'', JStr status), (''completedAt'', completedAt),
                               (''updatedAt'', JStr ''2024-01-01T00:00:00.000Z'')])]"

definition subscribe_message :: jsval where
  "subscribe_message = JObj [(''type'', JStr ''subscribe_team_performance'')]"

definition ping_message :: jsval where
  "ping_message = JObj [(''type'', JStr ''ping'')]"

definition done_message :: jsval where
  "done_message = update_message ''completed'' (JStr ''2024-01-01T00:00:00.000Z'')"

definition reopen_message :: jsval where
  "reopen_message = update_message ''pending'' (JStr ''2024-01-01T00:00:00.000Z'')"

definition ann_handshake :: jsval where
  "ann_handshake = JObj [(''userId'', JNum 7), (''username'', JStr ''ann'')]"

definition bob_handshake :: jsval where
  "bob_handshake = JObj [(''userId'', JNum 8), (''username'', JStr ''bob'')]"

definition carol_handshake :: jsval where
  "carol_handshake = JObj [(''userId'', JNum 9), (''username'', JStr ''carol'')]"

section \<open>Status transitions\<close>

lemma validTransitions_status:
  "validTransitions (status_text cur) = Transitions (map status_text (spec_allowed cur))"
  by (cases cur) (simp_all add: validTransitions_def spec_allowed_def)

lemma validateTaskUpdate_status:
  "validateTaskUpdate (status_text cur) v =
     Inr \<lparr>isValid = in_table cur v,
          message = (if in_table cur v then None else Some (rejection_text cur v))\<rparr>"
  by (simp add: validateTaskUpdate_def validTransitions_status in_table_def rejection_text_def
      comp_def)







section \<open>Frames and broadcasts\<close>

lemma is_open_outbox [simp]: "is_open (w\<lparr>outbox := x\<rparr>) c = is_open w c"
  by (simp add: is_open_def)

lemma is_open_pending [simp]: "is_open (w\<lparr>pending := x\<rparr>) c = is_open w c"
  by (simp add: is_open_def)

lemma is_open_db [simp]: "is_open (w\<lparr>db := x\<rparr>) c = is_open w c"
  by (simp add: is_open_def)

lemma is_open_subs [simp]: "is_open (w\<lparr>performanceSubscribers := x\<rparr>) c = is_open w c"
  by (simp add: is_open_def)

lemma foldl_send:
  "foldl (\<lambda>acc k. if keep acc k \<and> is_open acc k then ws_send k msg acc else acc) w ks =
     w\<lparr>outbox := outbox w @ map (\<lambda>k. (k, msg)) (filter (\<lambda>k. keep w k \<and> is_open w k) ks)\<rparr>"
  if "\<And>x k. keep (w\<lparr>outbox := x\<rparr>) k = keep w k"
  using that
proof (induction ks arbitrary: w)
  case Nil
  then show ?case by simp
next
  case (Cons k ks)
  have keep': "\<And>x y k. keep (w\<lparr>outbox := x\<rparr>\<lparr>outbox := y\<rparr>) k = keep (w\<lparr>outbox := x\<rparr>) k"
    by (simp add: Cons.prems)
  show ?case
  proof (cases "keep w k \<and> is_open w k")
    case True
    then show ?thesis
      using Cons.IH [of "w\<lparr>outbox := outbox w @ [(k, msg)]\<rparr>"] keep' Cons.prems
      by (simp add: ws_send_def)
  next
    case False
    then show ?thesis
      using Cons.IH [of w] Cons.prems by auto
  qed
qed

lemma broadcastToClients_eq:
  "broadcastToClients msg ex w =
     w\<lparr>outbox := outbox w @ map (\<lambda>k. (k, msg))
         (filter (\<lambda>k. \<not> (ex \<noteq> [] \<and> k = ex) \<and> is_open w k) (map fst (clients w)))\<rparr>"
proof -
  have "broadcastToClients msg ex w =
      foldl (\<lambda>acc k. if \<not> (ex \<noteq> [] \<and> k = ex) \<and> is_open acc k then ws_send k msg acc else acc)
        w (map fst (clients w))"
    unfolding broadcastToClients_def foldl_map
    by (rule arg_cong [where f = "\<lambda>f. foldl f w (clients w)"]) (auto simp: fun_eq_iff)
  also have "\<dots> = w\<lparr>outbox := outbox w @ map (\<lambda>k. (k, msg))
         (filter (\<lambda>k. \<not> (ex \<noteq> [] \<and> k = ex) \<and> is_open w k) (map fst (clients w)))\<rparr>"
    by (rule foldl_send) simp
  finally show ?thesis .
qed

lemma deliverTeamPerformance_eq:
  "deliverTeamPerformance w =
     w\<lparr>outbox := outbox w @ map (\<lambda>k. (k, TeamPerformance (calculateTeamPerformance (db w))))
         (filter (\<lambda>k. map_of (clients w) k \<noteq> None \<and> is_open w k) (performanceSubscribers w))\<rparr>"
proof -
  have "deliverTeamPerformance w =
      foldl (\<lambda>acc k. if map_of (clients acc) k \<noteq> None \<and> is_open acc k
                      then ws_send k (TeamPerformance (calculateTeamPerformance (db w))) acc else acc)
        w (performanceSubscribers w)"
    unfolding deliverTeamPerformance_def Let_def
    by (rule arg_cong [where f = "\<lambda>f. foldl f w (performanceSubscribers w)"])
       (auto simp: fun_eq_iff split: option.splits)
  also have "\<dots> = w\<lparr>outbox := outbox w @ map (\<lambda>k. (k, TeamPerformance (calculateTeamPerformance (db w))))
         (filter (\<lambda>k. map_of (clients w) k \<noteq> None \<and> is_open w k) (performanceSubscribers w))\<rparr>"
    by (rule foldl_send) simp
  finally show ?thesis .
qed

section \<open>Rejected task updates\<close>

lemma step_message_task_update:
  assumes "map_of (clients w) c = Some cl" "sockets w c = Some s" "readyState s \<noteq> CLOSED"
    "\<not> authPending s" "getProp pm ''type'' = JStr ''task_update''"
    "truthy (getProp pm ''taskId'')" "truthy (getProp pm ''changes'')"
  shows "step dp w (Message c (Json pm)) =
           w\<lparr>pending := pending w @ [AwaitSelect \<lparr>q_clientId = c, q_client = cl, q_message = pm\<rparr>]\<rparr>"
  using assms by (auto simp: step_def on_message_def)

lemma step_resume_last:
  "step dp (w\<lparr>pending := pending w @ [k]\<rparr>) (Resume (length (pending w)) ok now) =
     resume dp w k ok now"
  by (simp add: step_def)

lemma run_Cons: "run dp w (e # es) = run dp (step dp w e) es"
  by (simp add: run_def)

lemma run_Nil: "run dp w [] = w"
  by (simp add: run_def)


section \<open>Accepted task updates\<close>

lemma find_map_id:
  "find (\<lambda>t. t_id t = i) (map (\<lambda>t. if t_id t = i then set_columns st ca ua t else t) ts) =
     map_option (set_columns st ca ua) (find (\<lambda>t. t_id t = i) ts)"
  by (induction ts) (auto simp: set_columns_def)

lemma select_task_update:
  "select_task (fst (update_task s i st ca ua)) i = snd (update_task s i st ca ua)"
  by (simp add: select_task_def update_task_def find_map_id)

lemma update_task_absent:
  "select_task s i = None \<Longrightarrow> update_task s i st ca ua = (s, None)"
proof -
  assume a: "select_task s i = None"
  then have "\<forall>t \<in> set (tasks s). t_id t \<noteq> i"
    by (simp add: select_task_def find_None_iff)
  then have "map (\<lambda>t. if t_id t = i then set_columns st ca ua t else t) (tasks s) = tasks s"
    by (induction "tasks s") (auto simp: map_idI)
  with a show ?thesis
    by (simp add: update_task_def select_task_def)
qed

lemma after_select_accepts:
  assumes "getProp pm ''taskId'' = JNum i" "select_task (db w) i = Some t"
    "in_table (t_status t) (requested pm)"
  shows "after_select w \<lparr>q_clientId = c, q_client = cl, q_message = pm\<rparr> True =
     w\<lparr>pending := pending w @ [AwaitUpdate \<lparr>q_clientId = c, q_client = cl, q_message = pm\<rparr> t]\<rparr>"
  using assms by (simp add: after_select_def validateTaskUpdate_status requested_def)

lemma after_update_writes:
  assumes "getProp pm ''taskId'' = JNum i" "status_of_jsval (requested pm) = Some st"
    "completedAt_of dp pm = Some ca" "updatedAt_of dp pm = Some ua"
  shows "after_update dp w \<lparr>q_clientId = c, q_client = cl, q_message = pm\<rparr> t True now =
     w\<lparr>db := fst (update_task (db w) i st ca ua),
       pending := pending w @ [AwaitInsert \<lparr>q_clientId = c, q_client = cl, q_message = pm\<rparr> t
                                 (snd (update_task (db w) i st ca ua)) now]\<rparr>"
  using assms
  by (simp add: after_update_def requested_def completedAt_of_def updatedAt_of_def Let_def
      split_beta)

lemma after_insert_eq:
  assumes "getProp pm ''taskId'' = JNum i" "c_userId cl = JNum uid"
  shows "after_insert w \<lparr>q_clientId = c, q_client = cl, q_message = pm\<rparr> t upd now True =
     (let r = insert_activity (db w) i uid (activity_text t pm) now;
          w1 = w\<lparr>db := fst r\<rparr>
      in case upd of
           None \<Rightarrow> w1
         | Some t' \<Rightarrow> ws_send c (TaskUpdateSuccess t' (info_of cl (snd r)))
                        (broadcastToClients (TaskUpdate t' (info_of cl (snd r))) c w1))"
  using assms
  by (simp add: after_insert_def requested_def activity_text_def info_of_def Let_def split_beta
      split: option.split)

lemma step_resume_last_db:
  "step dp (w\<lparr>db := d, pending := pending w @ [k]\<rparr>) (Resume (length (pending w)) ok now) =
     resume dp (w\<lparr>db := d\<rparr>) k ok now"
  by (simp add: step_def)

text \<open>
  C3. An authenticated connection sends a \<^verbatim>\<open>task_update\<close> whose current and requested
  status are in the table, and the three statements succeed (the dates of the payload are
  valid, the sender's user id is a number). Then exactly one activity record is appended,
  the \<^verbatim>\<open>task_update\<close> event with the updated task and the activity with the sender's user
  id and name goes to every other registered open connection, in registry order, and after
  them the \<^verbatim>\<open>task_update_success\<close> event with the same payload goes to the sender.
\<close>

theorem task_update_accepted:
  assumes auth: "map_of (clients w) c = Some cl" "c \<noteq> []" "c_userId cl = JNum uid"
    and sock: "sockets w c = Some s" "readyState s = OPEN" "\<not> authPending s"
    and msg: "getProp pm ''type'' = JStr ''task_update''" "getProp pm ''taskId'' = JNum i" "i \<noteq> 0"
      "truthy (getProp pm ''changes'')"
    and cur: "select_task (db w) i = Some t"
    and req: "requested pm = JStr (status_text st)" "st \<in> set (spec_allowed (t_status t))"
    and dates: "completedAt_of dp pm = Some ca" "updatedAt_of dp pm = Some ua"
  shows "run dp w [Message c (Json pm), Resume (length (pending w)) True n1,
                   Resume (length (pending w)) True now, Resume (length (pending w)) True n3] =
     (let t' = set_columns st ca ua t;
          a = \<lparr>a_id = activitySerial (db w), a_taskId = i, a_userId = uid,
               a_action = activity_text t pm, a_createdAt = now\<rparr>
      in w\<lparr>db := (db w)\<lparr>tasks := map (\<lambda>x. if t_id x = i then set_columns st ca ua x else x)
                                  (tasks (db w)),
                         taskActivities := taskActivities (db w) @ [a],
                         activitySerial := activitySerial (db w) + 1\<rparr>,
            outbox := outbox w
              @ map (\<lambda>k. (k, TaskUpdate t' (info_of cl a)))
                  (filter (\<lambda>k. k \<noteq> c \<and> is_open w k) (map fst (clients w)))
              @ [(c, TaskUpdateSuccess t' (info_of cl a))]\<rparr>)"
proof -
  let ?q = "\<lparr>q_clientId = c, q_client = cl, q_message = pm\<rparr>"
  let ?n = "length (pending w)"
  have tab: "in_table (t_status t) (requested pm)"
    using req by (simp add: in_table_def)
  have st: "status_of_jsval (requested pm) = Some st"
    using req(1) by (cases st) (simp_all add: status_of_jsval_def)
  have o: "is_open w c"
    using sock by (simp add: is_open_def)
  have 1: "step dp w (Message c (Json pm)) = w\<lparr>pending := pending w @ [AwaitSelect ?q]\<rparr>"
    using auth sock msg by (intro step_message_task_update) auto
  have 2: "step dp (w\<lparr>pending := pending w @ [AwaitSelect ?q]\<rparr>) (Resume ?n True n1) =
           w\<lparr>pending := pending w @ [AwaitUpdate ?q t]\<rparr>"
    using msg cur tab by (simp add: step_resume_last resume_def after_select_accepts)
  have 3: "step dp (w\<lparr>pending := pending w @ [AwaitUpdate ?q t]\<rparr>) (Resume ?n True now) =
           w\<lparr>db := fst (update_task (db w) i st ca ua),
             pending := pending w @
               [AwaitInsert ?q t (snd (update_task (db w) i st ca ua)) now]\<rparr>"
    using msg st dates by (simp add: step_resume_last resume_def after_update_writes)
  have u: "snd (update_task (db w) i st ca ua) = Some (set_columns st ca ua t)"
    using cur by (simp add: update_task_def select_task_def)
  have 4: "step dp (w\<lparr>db := fst (update_task (db w) i st ca ua),
             pending := pending w @
               [AwaitInsert ?q t (snd (update_task (db w) i st ca ua)) now]\<rparr>)
             (Resume ?n True n3) =
           after_insert (w\<lparr>db := fst (update_task (db w) i st ca ua)\<rparr>) ?q t
             (Some (set_columns st ca ua t)) now True"
    by (simp add: step_resume_last_db resume_def u)
  show ?thesis
    unfolding run_Cons run_Nil 1 2 3 4
    using msg auth o
    by (simp add: after_insert_eq [where i = i and uid = uid] Let_def broadcastToClients_eq
        ws_send_def insert_activity_def update_task_def)
qed

section \<open>Subscriptions and the registry\<close>

lemma ws_send_frame [simp]:
  "clients (ws_send c m w) = clients w"
  "performanceSubscribers (ws_send c m w) = performanceSubscribers w"
  "sockets (ws_send c m w) = sockets w"
  "db (ws_send c m w) = db w"
  "pending (ws_send c m w) = pending w"
  "unhandledRejections (ws_send c m w) = unhandledRejections w"
  by (simp_all add: ws_send_def)

lemma resume_frame:
  "clients (resume dp w k ok now) = clients w"
  "performanceSubscribers (resume dp w k ok now) = performanceSubscribers w"
  "sockets (resume dp w k ok now) = sockets w"
  by (auto simp: resume_def after_select_def after_update_def after_insert_def database_error_def
      deliverTeamPerformance_eq broadcastToClients_eq Let_def split_beta
      split: cont.splits option.splits sum.splits prod.splits)

lemma on_message_frame:
  "clients (on_message w c d) = clients w"
  "sockets (on_message w c d) = sockets w"
  by (auto simp: on_message_def broadcastTeamPerformance_def Let_def split: raw.splits option.splits)

lemma on_message_subs:
  "set (performanceSubscribers (on_message w c d)) \<subseteq>
     set (performanceSubscribers w) \<union> ({c} \<inter> fst ` set (clients w))"
  by (auto simp: on_message_def broadcastTeamPerformance_def Let_def set_add_def
      split: raw.splits option.splits dest: map_of_SomeD intro: rev_image_eqI)

lemma set_map_set: "fst ` set (map_set k v ps) = insert k (fst ` set ps)"
  by (induction ps) auto

lemma on_auth_frame:
  "performanceSubscribers (on_auth w c d) = performanceSubscribers w"
  "fst ` set (clients w) \<subseteq> fst ` set (clients (on_auth w c d))"
  "fst ` set (clients (on_auth w c d)) \<subseteq> insert c (fst ` set (clients w))"
  by (auto simp: on_auth_def ws_close_def Let_def set_map_set split: raw.splits option.splits)

lemma on_auth_sockets:
  "c' \<noteq> c \<Longrightarrow> sockets (on_auth w c d) c' = sockets w c'"
  by (auto simp: on_auth_def ws_close_def Let_def split: raw.splits option.splits)

lemma step_preserves_registered:
  "subscribers_registered w \<Longrightarrow> subscribers_registered (step dp w e)"
proof (cases e)
  case (Message c d)
  assume inv: "subscribers_registered w"
  show ?thesis
  proof (cases "sockets w c")
    case None
    with Message inv show ?thesis by (simp add: step_def)
  next
    case (Some s)
    have a: "subscribers_registered (on_message w c d)"
      using inv on_message_subs [of w c d]
      by (auto simp: subscribers_registered_def on_message_frame)
    have b: "subscribers_registered (on_auth (x\<lparr>sockets := y\<rparr>) c d)"
      if "subscribers_registered x" for x y
      using that on_auth_frame(2) [of "x\<lparr>sockets := y\<rparr>" c d]
      by (auto simp: subscribers_registered_def on_auth_frame(1))
    show ?thesis
      using Message Some inv a b [OF a] by (simp add: step_def Let_def)
  qed
next
  case (Close c)
  assume "subscribers_registered w"
  then show ?thesis
    using Close
    by (auto simp: step_def subscribers_registered_def set_delete_def map_delete_def
        split: option.splits)
next
  case (Resume i ok now)
  assume "subscribers_registered w"
  then show ?thesis
    using Resume by (simp add: step_def subscribers_registered_def resume_frame)
qed (auto simp: step_def subscribers_registered_def broadcastTeamPerformance_def
      split: option.splits)

lemma run_preserves_registered:
  "subscribers_registered w \<Longrightarrow> subscribers_registered (run dp w es)"
  by (induction es arbitrary: w) (simp_all add: run_Nil run_Cons step_preserves_registered)

lemma init_registered: "subscribers_registered (init s0)"
  by (simp add: subscribers_registered_def init_def)

lemma step_close_gone:
  "sockets w c = Some s \<Longrightarrow> readyState s \<noteq> CLOSED \<Longrightarrow> gone c (step dp w (Close c))"
  by (auto simp: gone_def step_def set_delete_def map_delete_def)

lemma step_preserves_gone: "gone c w \<Longrightarrow> gone c (step dp w e)"
proof (cases e)
  case (Message c' d)
  assume g: "gone c w"
  show ?thesis
  proof (cases "c' = c")
    case True
    with g Message show ?thesis by (auto simp: gone_def step_def split: option.splits)
  next
    case False
    show ?thesis
    proof (cases "sockets w c'")
      case None
      with Message g show ?thesis by (simp add: step_def)
    next
      case (Some s)
      have a: "gone c (on_message w c' d)"
        using g on_message_subs [of w c' d] False
        by (auto simp: gone_def on_message_frame)
      have b: "gone c (on_auth (x\<lparr>sockets := (sockets x)(c' \<mapsto> y)\<rparr>) c' d)" if "gone c x" for x y
        using that False on_auth_frame(3) [of "x\<lparr>sockets := (sockets x)(c' \<mapsto> y)\<rparr>" c' d]
        by (auto simp: gone_def on_auth_frame(1) on_auth_sockets)
      show ?thesis
        using Message Some a b [OF a] g by (simp add: step_def Let_def)
    qed
  qed
next
  case (Close c')
  assume "gone c w"
  then show ?thesis
    using Close
    by (auto simp: step_def gone_def set_delete_def map_delete_def split: option.splits)
next
  case (Resume i ok now)
  assume "gone c w"
  then show ?thesis
    using Resume by (simp add: step_def gone_def resume_frame)
next
  case (Connect c')
  assume "gone c w"
  then show ?thesis
    using Connect by (auto simp: step_def gone_def split: option.splits)
qed (auto simp: step_def gone_def broadcastTeamPerformance_def split: option.splits)

lemma run_preserves_gone: "gone c w \<Longrightarrow> gone c (run dp w es)"
  by (induction es arbitrary: w) (simp_all add: run_Nil run_Cons step_preserves_gone)

lemma deliver_skips_gone:
  "c \<notin> set (performanceSubscribers w) \<Longrightarrow>
   filter (\<lambda>p. fst p = c) (outbox (deliverTeamPerformance w)) = filter (\<lambda>p. fst p = c) (outbox w)"
  by (auto simp: deliverTeamPerformance_eq filter_map comp_def filter_empty_conv)

text \<open>
  C8. In every state the hub reaches from its start, each subscribed connection id is a key
  of the registry. The \<^verbatim>\<open>close\<close> event of a connection removes its id from the
  subscriptions and from the registry; whatever happens afterwards, the id is in neither
  again, and a later delivery of the team performance addresses no frame to it.
\<close>

theorem no_dangling_subscription:
  assumes "sockets w c = Some s" "readyState s \<noteq> CLOSED"
  shows "subscribers_registered (run dp (init s0) es) \<and>
    c \<notin> set (performanceSubscribers (step dp w (Close c))) \<and>
    map_of (clients (step dp w (Close c))) c = None \<and>
    c \<notin> set (performanceSubscribers (run dp (step dp w (Close c)) es')) \<and>
    map_of (clients (run dp (step dp w (Close c)) es')) c = None \<and>
    filter (\<lambda>p. fst p = c) (outbox (deliverTeamPerformance (run dp (step dp w (Close c)) es'))) =
      filter (\<lambda>p. fst p = c) (outbox (run dp (step dp w (Close c)) es'))"
proof -
  have g: "gone c (step dp w (Close c))"
    using assms by (rule step_close_gone)
  then have g': "gone c (run dp (step dp w (Close c)) es')"
    by (rule run_preserves_gone)
  show ?thesis
    using g g' run_preserves_registered [OF init_registered, of dp s0 es]
    by (auto simp: gone_def deliver_skips_gone map_of_eq_None_iff)
qed

section \<open>The registry in reachable states\<close>

lemma distinct_map_set: "distinct (map fst ps) \<Longrightarrow> distinct (map fst (map_set k v ps))"
  by (induction ps) (auto simp: set_map_set)

lemma in_map_set: "(a, b) \<in> set (map_set k v ps) \<Longrightarrow> a \<noteq> k \<Longrightarrow> (a, b) \<in> set ps"
  by (induction ps) (auto split: if_splits)

lemma distinct_map_delete: "distinct (map fst ps) \<Longrightarrow> distinct (map fst (map_delete k ps))"
  by (simp add: map_delete_def distinct_map_filter)

lemma on_message_subs_distinct:
  "distinct (performanceSubscribers w) \<Longrightarrow> distinct (performanceSubscribers (on_message w c d))"
  by (auto simp: on_message_def broadcastTeamPerformance_def Let_def set_add_def
      split: raw.splits option.splits)

lemma step_preserves_sound: "sound_registry w \<Longrightarrow> sound_registry (step dp w e)"
proof (cases e)
  case (Connect c)
  assume "sound_registry w"
  then show ?thesis
    using Connect by (auto simp: step_def sound_registry_def split: option.splits)
next
  case (Message c d)
  assume inv: "sound_registry w"
  show ?thesis
  proof (cases "sockets w c")
    case None
    with Message inv show ?thesis by (simp add: step_def)
  next
    case (Some s)
    let ?w1 = "on_message w c d"
    have a: "sound_registry ?w1"
      using inv on_message_subs_distinct [of w c d]
      by (auto simp: sound_registry_def on_message_frame)
    show ?thesis
    proof (cases "readyState s = CLOSED \<or> \<not> authPending s")
      case True
      with Message Some a inv show ?thesis by (auto simp: step_def Let_def)
    next
      case False
      then have s: "authPending s" "readyState s = OPEN"
        using inv Some by (auto simp: sound_registry_def)
      then have unreg: "c \<notin> fst ` set (clients w)"
        using inv Some by (auto simp: sound_registry_def)
      let ?w2 = "?w1\<lparr>sockets := (sockets ?w1)(c \<mapsto> s\<lparr>authPending := False\<rparr>)\<rparr>"
      have st: "step dp w e = on_auth ?w2 c d"
        using Message Some s by (simp add: step_def Let_def)
      have "sound_registry (on_auth ?w2 c d)"
        using a unreg s
        by (cases s)
           (auto simp: sound_registry_def on_auth_def ws_close_def ws_send_def Let_def
              on_message_frame distinct_map_set set_map_set split: raw.splits
              dest: in_map_set)
      with st show ?thesis by simp
    qed
  qed
next
  case (Close c)
  assume "sound_registry w"
  then show ?thesis
    using Close
    by (auto simp: step_def sound_registry_def set_delete_def map_delete_def distinct_map_filter
        split: option.splits)
next
  case (Resume i ok now)
  assume "sound_registry w"
  then show ?thesis
    using Resume by (auto simp: step_def sound_registry_def resume_frame)
next
  case Tick
  assume "sound_registry w"
  then show ?thesis
    using Tick by (auto simp: step_def sound_registry_def broadcastTeamPerformance_def)
next
  case (External s)
  assume "sound_registry w"
  then show ?thesis
    using External by (auto simp: step_def sound_registry_def)
qed

lemma run_preserves_sound: "sound_registry w \<Longrightarrow> sound_registry (run dp w es)"
  by (induction es arbitrary: w) (simp_all add: run_Nil run_Cons step_preserves_sound)

lemma reachable_sound: "sound_registry (run dp (init s0) es)"
  by (rule run_preserves_sound) (simp add: sound_registry_def init_def)

text \<open>
  So an authenticated connection of a reachable state has an open socket past its
  handshake, and a broadcast over distinct keys addresses each recipient once.
\<close>

lemma authenticated_socket:
  assumes "map_of (clients (run dp (init s0) es)) c = Some cl"
  shows "sockets (run dp (init s0) es) c = Some \<lparr>readyState = OPEN, authPending = False\<rparr>"
proof -
  have "c \<in> fst ` set (clients (run dp (init s0) es))"
    using assms by (metis map_of_eq_None_iff option.distinct(1))
  then show ?thesis
    using reachable_sound [of dp s0 es] by (auto simp: sound_registry_def)
qed

lemma frames_once:
  "distinct ks \<Longrightarrow>
   filter (\<lambda>p. fst p = k) (map (\<lambda>j. (j, m)) (filter P ks)) =
     (if k \<in> set ks \<and> P k then [(k, m)] else [])"
  by (induction ks) (auto simp: filter_empty_conv)

section \<open>Lost tasks, persisted columns, subscription, unknown frames\<close>

lemma task_update_reaches_update:
  assumes auth: "map_of (clients w) c = Some cl"
    and sock: "sockets w c = Some s" "readyState s \<noteq> CLOSED" "\<not> authPending s"
    and msg: "getProp pm ''type'' = JStr ''task_update''" "getProp pm ''taskId'' = JNum i" "i \<noteq> 0"
      "truthy (getProp pm ''changes'')"
    and cur: "select_task (db w) i = Some t"
    and req: "requested pm = JStr (status_text st)" "st \<in> set (spec_allowed (t_status t))"
  shows "run dp w (Message c (Json pm) # Resume (length (pending w)) True n1 # es) =
     run dp (w\<lparr>pending := pending w @
        [AwaitUpdate \<lparr>q_clientId = c, q_client = cl, q_message = pm\<rparr> t]\<rparr>) es"
proof -
  let ?q = "\<lparr>q_clientId = c, q_client = cl, q_message = pm\<rparr>"
  have tab: "in_table (t_status t) (requested pm)"
    using req by (simp add: in_table_def)
  have 1: "step dp w (Message c (Json pm)) = w\<lparr>pending := pending w @ [AwaitSelect ?q]\<rparr>"
    using auth sock msg by (intro step_message_task_update) auto
  have 2: "step dp (w\<lparr>pending := pending w @ [AwaitSelect ?q]\<rparr>)
             (Resume (length (pending w)) True n1) =
           w\<lparr>pending := pending w @ [AwaitUpdate ?q t]\<rparr>"
    using msg cur tab by (simp add: step_resume_last resume_def after_select_accepts)
  show ?thesis
    by (simp add: run_Cons 1 2)
qed

lemma status_of_jsval_text: "status_of_jsval (JStr (status_text st)) = Some st"
  by (cases st) (simp_all add: status_of_jsval_def)

text \<open>
  C10. The transition has been validated, and before the \<^verbatim>\<open>update\<close> statement runs
  another route deletes the task. The statement then returns no row; the handler still
  inserts the activity record, and it sends nothing: no event to the others, no success
  and no error to the sender.
\<close>

theorem update_lost_task:
  assumes auth: "map_of (clients w) c = Some cl" "c_userId cl = JNum uid"
    and sock: "sockets w c = Some s" "readyState s = OPEN" "\<not> authPending s"
    and msg: "getProp pm ''type'' = JStr ''task_update''" "getProp pm ''taskId'' = JNum i" "i \<noteq> 0"
      "truthy (getProp pm ''changes'')"
    and cur: "select_task (db w) i = Some t"
    and req: "requested pm = JStr (status_text st)" "st \<in> set (spec_allowed (t_status t))"
    and dates: "completedAt_of dp pm = Some ca" "updatedAt_of dp pm = Some ua"
    and lost: "select_task s2 i = None"
  shows "run dp w [Message c (Json pm), Resume (length (pending w)) True n1, External s2,
                   Resume (length (pending w)) True now, Resume (length (pending w)) True n3] =
     w\<lparr>db := s2\<lparr>taskActivities := taskActivities s2 @
                   [\<lparr>a_id = activitySerial s2, a_taskId = i, a_userId = uid,
                     a_action = activity_text t pm, a_createdAt = now\<rparr>],
                 activitySerial := activitySerial s2 + 1\<rparr>\<rparr>"
proof -
  let ?q = "\<lparr>q_clientId = c, q_client = cl, q_message = pm\<rparr>"
  have st: "status_of_jsval (requested pm) = Some st"
    using req(1) by (simp add: status_of_jsval_text)
  have 3: "step dp (w\<lparr>pending := pending w @ [AwaitUpdate ?q t]\<rparr>) (External s2) =
           w\<lparr>db := s2, pending := pending w @ [AwaitUpdate ?q t]\<rparr>"
    by (simp add: step_def)
  have 4: "step dp (w\<lparr>db := s2, pending := pending w @ [AwaitUpdate ?q t]\<rparr>)
             (Resume (length (pending w)) True now) =
           w\<lparr>db := s2, pending := pending w @ [AwaitInsert ?q t None now]\<rparr>"
    using msg st dates lost
    by (simp add: step_resume_last_db resume_def after_update_writes update_task_absent)
  have 5: "step dp (w\<lparr>db := s2, pending := pending w @ [AwaitInsert ?q t None now]\<rparr>)
             (Resume (length (pending w)) True n3) =
           after_insert (w\<lparr>db := s2\<rparr>) ?q t None now True"
    by (simp add: step_resume_last_db resume_def)
  have "run dp w [Message c (Json pm), Resume (length (pending w)) True n1, External s2,
                   Resume (length (pending w)) True now, Resume (length (pending w)) True n3] =
        after_insert (w\<lparr>db := s2\<rparr>) ?q t None now True"
    using auth sock msg cur req
    by (subst task_update_reaches_update [where cl = cl and s = s and i = i and t = t and st = st])
       (simp_all add: run_Cons run_Nil 3 4 5)
  then show ?thesis
    using msg auth
    by (simp add: after_insert_eq [where i = i and uid = uid] Let_def insert_activity_def)
qed

text \<open>
  C4, as amended. An accepted \<^verbatim>\<open>task_update\<close> runs one \<^verbatim>\<open>update ... returning\<close>
  statement, which writes the new status, the update timestamp and a completion timestamp
  that depends on the payload alone: the payload's \<^verbatim>\<open>completedAt\<close> as a date when that
  field is truthy, and \<^verbatim>\<open>null\<close> otherwise, whatever the target status is.
\<close>

theorem update_persists_payload:
  assumes auth: "map_of (clients w) c = Some cl"
    and sock: "sockets w c = Some s" "readyState s = OPEN" "\<not> authPending s"
    and msg: "getProp pm ''type'' = JStr ''task_update''" "getProp pm ''taskId'' = JNum i" "i \<noteq> 0"
      "truthy (getProp pm ''changes'')"
    and cur: "select_task (db w) i = Some t"
    and req: "requested pm = JStr (status_text st)" "st \<in> set (spec_allowed (t_status t))"
    and dates: "completedAt_of dp pm = Some ca" "updatedAt_of dp pm = Some ua"
  shows "run dp w [Message c (Json pm), Resume (length (pending w)) True n1,
                   Resume (length (pending w)) True n2] =
           w\<lparr>db := fst (update_task (db w) i st ca ua),
             pending := pending w @
               [AwaitInsert \<lparr>q_clientId = c, q_client = cl, q_message = pm\<rparr> t
                  (Some (t\<lparr>t_status := st, t_completedAt := ca, t_updatedAt := ua\<rparr>)) n2]\<rparr>
         \<and> select_task (fst (update_task (db w) i st ca ua)) i =
             Some (t\<lparr>t_status := st, t_completedAt := ca, t_updatedAt := ua\<rparr>)
         \<and> ca = (if truthy (getProp (getProp pm ''changes'') ''completedAt'')
                 then new_Date dp (getProp (getProp pm ''changes'') ''completedAt'')
                 else None)"
proof -
  let ?q = "\<lparr>q_clientId = c, q_client = cl, q_message = pm\<rparr>"
  have st: "status_of_jsval (requested pm) = Some st"
    using req(1) by (simp add: status_of_jsval_text)
  have u: "snd (update_task (db w) i st ca ua) =
      Some (t\<lparr>t_status := st, t_completedAt := ca, t_updatedAt := ua\<rparr>)"
    using cur by (simp add: update_task_def select_task_def set_columns_def)
  have 3: "step dp (w\<lparr>pending := pending w @ [AwaitUpdate ?q t]\<rparr>)
             (Resume (length (pending w)) True n2) =
           w\<lparr>db := fst (update_task (db w) i st ca ua),
             pending := pending w @
               [AwaitInsert ?q t (snd (update_task (db w) i st ca ua)) n2]\<rparr>"
    using msg st dates by (simp add: step_resume_last resume_def after_update_writes)
  have r: "run dp w [Message c (Json pm), Resume (length (pending w)) True n1,
                   Resume (length (pending w)) True n2] =
           w\<lparr>db := fst (update_task (db w) i st ca ua),
             pending := pending w @
               [AwaitInsert ?q t (snd (update_task (db w) i st ca ua)) n2]\<rparr>"
    using auth sock msg cur req
    by (subst task_update_reaches_update [where cl = cl and s = s and i = i and t = t and st = st])
       (simp_all add: run_Cons run_Nil 3)
  have c: "ca = (if truthy (getProp (getProp pm ''changes'') ''completedAt'')
                 then new_Date dp (getProp (getProp pm ''changes'') ''completedAt'')
                 else None)"
    using dates(1) by (auto simp: completedAt_of_def Let_def split: if_splits)
  show ?thesis
    using r c u select_task_update [of "db w" i st ca ua] by simp
qed

text \<open>
  C9. An authenticated connection sends \<^verbatim>\<open>subscribe_team_performance\<close>. Its id joins the
  subscription set, one computation of the team performance starts, and when it completes
  the resulting \<^verbatim>\<open>team_performance\<close> frame goes to every subscribed connection whose
  socket is open, the earlier subscribers as well as the new one.
\<close>

theorem subscribe_broadcasts:
  assumes auth: "map_of (clients w) c = Some cl"
    and sock: "sockets w c = Some s" "readyState s = OPEN" "\<not> authPending s"
    and msg: "getProp pm ''type'' = JStr ''subscribe_team_performance''"
    and inv: "subscribers_registered w"
  shows "run dp w [Message c (Json pm), Resume (length (pending w)) True now] =
     w\<lparr>performanceSubscribers := set_add c (performanceSubscribers w),
       outbox := outbox w @
         map (\<lambda>k. (k, TeamPerformance (calculateTeamPerformance (db w))))
           (filter (is_open w) (set_add c (performanceSubscribers w)))\<rparr>"
proof -
  let ?w1 = "w\<lparr>performanceSubscribers := set_add c (performanceSubscribers w)\<rparr>"
  have 1: "step dp w (Message c (Json pm)) = ?w1\<lparr>pending := pending w @ [AwaitPerformance]\<rparr>"
    using auth sock msg
    by (auto simp: step_def on_message_def broadcastTeamPerformance_def)
  have 2: "step dp (?w1\<lparr>pending := pending w @ [AwaitPerformance]\<rparr>)
             (Resume (length (pending w)) True now) = deliverTeamPerformance ?w1"
    using step_resume_last [of dp ?w1 AwaitPerformance True now] by (simp add: resume_def)
  have "c \<in> fst ` set (clients w)"
    using auth by (metis map_of_eq_None_iff option.distinct(1))
  then have reg: "map_of (clients w) k \<noteq> None"
    if "k \<in> set (set_add c (performanceSubscribers w))" for k
    using that inv
    by (auto simp: set_add_def subscribers_registered_def map_of_eq_None_iff split: if_splits)
  have f: "filter (\<lambda>k. (\<exists>y. map_of (clients w) k = Some y) \<and> is_open w k)
             (set_add c (performanceSubscribers w)) =
           filter (is_open w) (set_add c (performanceSubscribers w))"
    by (rule filter_cong) (use reg in auto)
  show ?thesis
    by (simp add: run_Cons run_Nil 1 2 deliverTeamPerformance_eq f)
qed

text \<open>
  C6, as amended. On an authenticated connection a frame that is not JSON is answered
  with one \<^verbatim>\<open>MESSAGE_PARSE_ERROR\<close> frame, and nothing else changes. A frame that is JSON
  (other than \<^verbatim>\<open>null\<close>) but is neither a subscription nor a \<^verbatim>\<open>task_update\<close> with a truthy
  \<^verbatim>\<open>taskId\<close> and \<^verbatim>\<open>changes\<close> is ignored: no reply, no change of any state, and the
  connection stays open.
\<close>

theorem unparseable_or_unrecognized_message:
  assumes auth: "map_of (clients w) c = Some cl"
    and sock: "sockets w c = Some s" "readyState s = OPEN" "\<not> authPending s"
  shows "step dp w (Message c NotJson) =
           w\<lparr>outbox := outbox w @
               [(c, ErrorMsg ''MESSAGE_PARSE_ERROR'' (Some ''Invalid message format''))]\<rparr>
    \<and> (v \<noteq> JNull \<and> getProp v ''type'' \<noteq> JStr ''subscribe_team_performance'' \<and>
        \<not> (getProp v ''type'' = JStr ''task_update'' \<and> truthy (getProp v ''taskId'')
            \<and> truthy (getProp v ''changes''))
       \<longrightarrow> step dp w (Message c (Json v)) = w)"
  using assms by (auto simp: step_def on_message_def ws_send_def is_open_def)

section \<open>Rounding\<close>

lemma two_powi_add: "(2::rat) powi (m + n) = 2 powi m * 2 powi n"
  by (rule power_int_add) simp

lemma ilog2_bounds:
  assumes "0 < x"
  shows "2 powi (ilog2 x) \<le> x" and "x < 2 powi (ilog2 x + 1)"
proof -
  obtain p q where pq: "quotient_of x = (p, q)"
    by (cases "quotient_of x")
  have q: "0 < q" using pq by (rule quotient_of_denom_pos)
  have x: "x = of_int p / of_int q" using pq by (rule quotient_of_div)
  have p: "0 < p"
    using assms q unfolding x by (simp add: zero_less_divide_iff)
  define fp where "fp = floorlog 2 (nat p)"
  define fq where "fq = floorlog 2 (nat q)"
  define k where "k = int fp - int fq"
  have bp: "2 ^ (fp - 1) \<le> nat p" "nat p < 2 ^ fp"
    using floorlog_bounds [of "nat p" 2] p by (simp_all add: fp_def)
  have bq: "2 ^ (fq - 1) \<le> nat q" "nat q < 2 ^ fq"
    using floorlog_bounds [of "nat q" 2] q by (simp_all add: fq_def)
  have fp1: "1 \<le> fp" using p by (simp add: fp_def floorlog_def)
  have fq1: "1 \<le> fq" using q by (simp add: fq_def floorlog_def)
  have rp: "(2::rat) ^ (fp - 1) \<le> of_int p" "of_int p < (2::rat) ^ fp"
  proof -
    have "(of_nat (2 ^ (fp - 1)) :: rat) \<le> of_nat (nat p)" using bp(1) by (rule of_nat_mono)
    then show "(2::rat) ^ (fp - 1) \<le> of_int p" using p by simp
    have "(of_nat (nat p) :: rat) < of_nat (2 ^ fp)" using bp(2) by (simp only: of_nat_less_iff)
    then show "of_int p < (2::rat) ^ fp" using p by simp
  qed
  have rq: "(2::rat) ^ (fq - 1) \<le> of_int q" "of_int q < (2::rat) ^ fq"
  proof -
    have "(of_nat (2 ^ (fq - 1)) :: rat) \<le> of_nat (nat q)" using bq(1) by (rule of_nat_mono)
    then show "(2::rat) ^ (fq - 1) \<le> of_int q" using q by simp
    have "(of_nat (nat q) :: rat) < of_nat (2 ^ fq)" using bq(2) by (simp only: of_nat_less_iff)
    then show "of_int q < (2::rat) ^ fq" using q by simp
  qed
  have qpos: "(0::rat) < of_int q" using q by simp
  have upper: "x < 2 powi (k + 1)"
  proof -
    have "x * of_int q = of_int p" using qpos by (simp add: x)
    also have "\<dots> < 2 ^ fp" by (rule rp(2))
    also have "\<dots> = 2 powi (k + 1) * 2 ^ (fq - 1)"
    proof -
      have "int fp = (k + 1) + int (fq - 1)" using fq1 by (simp add: k_def)
      then have "(2::rat) powi (int fp) = 2 powi (k + 1) * 2 powi (int (fq - 1))"
        by (simp only: two_powi_add)
      then show ?thesis by simp
    qed
    also have "\<dots> \<le> 2 powi (k + 1) * of_int q"
      using rq(1) by (simp add: mult_left_mono)
    finally show ?thesis using qpos by simp
  qed
  have lower: "2 powi (k - 1) < x"
  proof -
    have "2 powi (k - 1) * of_int q < 2 powi (k - 1) * (2::rat) ^ fq"
      using rq(2) by (simp add: mult_strict_left_mono)
    also have "\<dots> = 2 ^ (fp - 1)"
    proof -
      have "int (fp - 1) = (k - 1) + int fq" using fp1 by (simp add: k_def)
      then have "(2::rat) powi (int (fp - 1)) = 2 powi (k - 1) * 2 powi (int fq)"
        by (simp only: two_powi_add)
      then show ?thesis by simp
    qed
    also have "\<dots> \<le> of_int p" by (rule rp(1))
    also have "\<dots> = x * of_int q" using qpos by (simp add: x)
    finally show ?thesis using qpos by simp
  qed
  have il: "ilog2 x = (if 2 powi k \<le> x then k else k - 1)"
    by (simp add: ilog2_def pq fp_def fq_def k_def Let_def bitlen_def)
  show "2 powi (ilog2 x) \<le> x"
    using lower by (simp add: il)
  show "x < 2 powi (ilog2 x + 1)"
    using upper by (auto simp: il not_le)
qed

lemma round_half_even_error: "\<bar>of_int (round_half_even m) - m\<bar> \<le> 1 / 2"
proof -
  have "of_int \<lfloor>m\<rfloor> \<le> m" "m < of_int \<lfloor>m\<rfloor> + 1" by linarith+
  then show ?thesis
    by (auto simp: round_half_even_def Let_def)
qed

lemma round_half_even_of_int [simp]: "round_half_even (of_int n) = n"
  by (simp add: round_half_even_def)

lemma fl_error:
  assumes "0 < x"
  shows "\<bar>fl x - x\<bar> \<le> x / 2 ^ 53"
proof -
  define u :: rat where "u = 2 powi (ilog2 x - 52)"
  have u: "0 < u" by (simp add: u_def)
  have f: "fl x = of_int (round_half_even (x / u)) * u"
    using assms by (simp add: fl_def u_def Let_def)
  have "\<bar>fl x - x\<bar> = \<bar>of_int (round_half_even (x / u)) - x / u\<bar> * u"
  proof -
    have "fl x - x = (of_int (round_half_even (x / u)) - x / u) * u"
      using u by (simp add: f field_simps)
    then show ?thesis using u by (simp add: abs_mult)
  qed
  also have "\<dots> \<le> 1 / 2 * u"
    using round_half_even_error [of "x / u"] u by (simp add: mult_right_mono)
  also have "\<dots> = 2 powi (ilog2 x) / 2 ^ 53"
  proof -
    have "(2::rat) powi (ilog2 x - 52) = 2 powi (ilog2 x) / 2 powi 52"
      by (rule power_int_diff) simp
    then show ?thesis by (simp add: u_def)
  qed
  also have "\<dots> \<le> x / 2 ^ 53"
    using ilog2_bounds(1) [OF assms] by (simp add: divide_right_mono)
  finally show ?thesis .
qed

lemma fl_zero [simp]: "fl 0 = 0"
  by (simp add: fl_def)

lemma fl_exact:
  assumes "0 < x" "x / 2 powi (ilog2 x - 52) = of_int n"
  shows "fl x = x"
proof -
  have "fl x = of_int (round_half_even (x / 2 powi (ilog2 x - 52))) * 2 powi (ilog2 x - 52)"
    using assms(1) by (simp add: fl_def Let_def)
  also have "\<dots> = x / 2 powi (ilog2 x - 52) * 2 powi (ilog2 x - 52)"
    by (simp add: assms(2))
  also have "\<dots> = x" by simp
  finally show ?thesis .
qed

lemma fl_half_integer:
  assumes "0 < m" "m < 2 ^ 53"
  shows "fl (of_int m / 2) = of_int m / 2"
proof -
  define x :: rat where "x = of_int m / 2"
  have x: "0 < x" using assms(1) by (simp add: x_def)
  have "x < 2 ^ 52"
  proof -
    have "(of_int m :: rat) < of_int (2 ^ 53)" using assms(2) by (simp only: of_int_less_iff)
    then show ?thesis by (simp add: x_def)
  qed
  with ilog2_bounds(1) [OF x] have "(2::rat) powi (ilog2 x) < 2 powi 52" by simp
  then have e: "ilog2 x < 52"
    by (rule power_int_le_imp_less_exp [rotated]) simp_all
  define j where "j = nat (51 - ilog2 x)"
  have "x / 2 powi (ilog2 x - 52) = x * 2 powi (52 - ilog2 x)"
    by (simp add: power_int_minus [symmetric] divide_inverse)
  also have "52 - ilog2 x = 1 + int j" using e by (simp add: j_def)
  also have "x * 2 powi (1 + int j) = of_int (m * 2 ^ j)"
    by (simp add: two_powi_add x_def)
  finally show ?thesis
    unfolding x_def [symmetric] by (rule fl_exact [OF x])
qed

lemma Math_round_close:
  assumes "\<bar>d - z\<bar> \<le> e" "of_int n \<le> z + 1 / 2 - e" "z + 1 / 2 + e < of_int n + 1"
  shows "Math_round d = n"
  unfolding Math_round_def using assms by (intro floor_unique) linarith+

lemma percent_error:
  assumes "0 < a" "a \<le> b"
  shows "\<bar>js_mul (js_div (of_int a) (of_int b)) 100 - of_int a / of_int b * 100\<bar> \<le> 1 / 2 ^ 44"
proof -
  define x :: rat where "x = of_int a / of_int b"
  define y where "y = fl x"
  define d where "d = fl (y * 100)"
  define eps :: rat where "eps = 1 / 2 ^ 53"
  have eps: "0 < eps" "eps \<le> 1" "300 * eps \<le> 1 / 2 ^ 44" by (simp_all add: eps_def)
  have b: "0 < b" using assms by simp
  have x: "0 < x" "x \<le> 1" using assms b by (simp_all add: x_def)
  have "\<bar>y - x\<bar> \<le> x * eps"
    using fl_error [OF x(1)] by (simp add: y_def eps_def)
  moreover have "x * eps \<le> 1 * eps" "x * eps < x * 1"
    using x eps by (simp_all add: mult_right_mono)
  ultimately have ey: "\<bar>y - x\<bar> \<le> eps" and y: "0 < y" by linarith+
  have y2: "y \<le> 2" using ey x(2) eps(2) by linarith
  have "0 < y * 100" using y by simp
  then have "\<bar>d - y * 100\<bar> \<le> y * 100 * eps"
    using fl_error [of "y * 100"] by (simp add: d_def eps_def)
  moreover have "y * 100 * eps \<le> 2 * 100 * eps"
    using y2 eps(1) by (simp add: mult_right_mono)
  ultimately have ed: "\<bar>d - y * 100\<bar> \<le> 200 * eps" by linarith
  have "\<bar>d - x * 100\<bar> \<le> 300 * eps" using ed ey by linarith
  with eps(3) have "\<bar>d - x * 100\<bar> \<le> 1 / 2 ^ 44" by (rule order_trans [rotated])
  then show ?thesis
    by (simp add: d_def y_def x_def js_mul_def js_div_def)
qed

lemma percent_zero: "js_mul (js_div 0 b) 100 = 0"
  by (simp add: js_mul_def js_div_def)

lemma rate_range:
  assumes "0 \<le> a" "a \<le> b" "0 < b"
  shows "0 \<le> Math_round (js_mul (js_div (of_int a) (of_int b)) 100)"
    and "Math_round (js_mul (js_div (of_int a) (of_int b)) 100) \<le> 100"
proof -
  define d where "d = js_mul (js_div (of_int a) (of_int b)) 100"
  have "\<bar>d - of_int a / of_int b * 100\<bar> \<le> 1 / 2 ^ 44"
  proof (cases "a = 0")
    case True
    then show ?thesis by (simp add: d_def percent_zero)
  next
    case False
    with assms show ?thesis unfolding d_def by (intro percent_error) simp_all
  qed
  moreover have "0 \<le> (of_int a / of_int b :: rat)" "(of_int a / of_int b :: rat) \<le> 1"
    using assms by simp_all
  moreover have "(1 / 2 ^ 44 :: rat) \<le> 1 / 4" by simp
  ultimately have "- (1 / 4) \<le> d" "d \<le> 100 + 1 / 4" by linarith+
  then have "0 \<le> \<lfloor>d + 1 / 2\<rfloor>" "\<lfloor>d + 1 / 2\<rfloor> \<le> 100"
    by (simp_all add: le_floor_iff floor_le_iff)
  then show "0 \<le> Math_round (js_mul (js_div (of_int a) (of_int b)) 100)"
    and "Math_round (js_mul (js_div (of_int a) (of_int b)) 100) \<le> 100"
    by (simp_all add: Math_round_def d_def)
qed

lemma rate_exact:
  assumes "0 \<le> a" "a \<le> b" "0 < b" "b < 2 ^ 31" "(200 * a + b) mod (2 * b) \<noteq> 0"
  shows "Math_round (js_mul (js_div (of_int a) (of_int b)) 100) =
         \<lfloor>(of_int a / of_int b * 100 + 1 / 2 :: rat)\<rfloor>"
proof -
  define N where "N = 200 * a + b"
  define n where "n = N div (2 * b)"
  define r where "r = N mod (2 * b)"
  define z :: rat where "z = of_int a / of_int b * 100"
  have "0 \<le> r" "r < 2 * b" "r \<noteq> 0"
    using assms(3,5) pos_mod_bound [of "2 * b" N] pos_mod_sign [of "2 * b" N]
    by (simp_all add: r_def N_def)
  then have r: "1 \<le> r" "r \<le> 2 * b - 1" by linarith+
  have N: "N = n * (2 * b) + r" unfolding n_def r_def by (rule div_mult_mod_eq [symmetric])
  have bq: "(0::rat) < of_int b" using assms(3) by simp
  have zh: "z + 1 / 2 = of_int n + of_int r / (2 * of_int b)"
  proof -
    have "z + 1 / 2 = of_int N / (2 * of_int b)"
      using bq by (simp add: z_def N_def field_simps)
    also have "\<dots> = of_int n + of_int r / (2 * of_int b)"
      using bq by (simp add: N field_simps)
    finally show ?thesis .
  qed
  have small: "(1 / 2 ^ 44 :: rat) < 1 / (2 * of_int b)"
  proof -
    have "(of_int b :: rat) < of_int (2 ^ 31)" using assms(4) by (simp only: of_int_less_iff)
    then have "2 * (of_int b :: rat) < 2 ^ 44" by simp
    then show ?thesis using bq by (simp add: field_simps)
  qed
  have lo: "1 / (2 * of_int b) \<le> (of_int r / (2 * of_int b) :: rat)"
    using r(1) bq by (simp add: divide_right_mono)
  have hi: "(of_int r / (2 * of_int b) :: rat) \<le> 1 - 1 / (2 * of_int b)"
  proof -
    have "(of_int r :: rat) \<le> of_int (2 * b - 1)" using r(2) by (simp only: of_int_le_iff)
    then have "(of_int r :: rat) \<le> 2 * of_int b - 1" by simp
    then have "(of_int r / (2 * of_int b) :: rat) \<le> (2 * of_int b - 1) / (2 * of_int b)"
      using bq by (simp add: divide_right_mono)
    also have "\<dots> = 1 - 1 / (2 * of_int b)" using bq by (simp add: field_simps)
    finally show ?thesis .
  qed
  have err: "\<bar>js_mul (js_div (of_int a) (of_int b)) 100 - z\<bar> \<le> 1 / 2 ^ 44"
  proof (cases "a = 0")
    case True
    then show ?thesis by (simp add: z_def percent_zero)
  next
    case False
    with assms show ?thesis unfolding z_def by (intro percent_error) simp_all
  qed
  have "Math_round (js_mul (js_div (of_int a) (of_int b)) 100) = n"
    using err by (rule Math_round_close) (use zh small lo hi in linarith)+
  moreover have "(0::rat) < 1 / 2 ^ 44" by simp
  then have "\<lfloor>z + 1 / 2\<rfloor> = n"
    by (intro floor_unique) (use zh small lo hi in linarith)+
  ultimately show ?thesis by (simp add: z_def)
qed

lemma score_exact:
  assumes "0 \<le> S" "S < 2 ^ 45"
  shows "Math_round (js_div (of_int S) 100) = \<lfloor>(of_int S / 100 + 1 / 2 :: rat)\<rfloor>"
proof (cases "S = 0")
  case True
  then show ?thesis by (simp add: js_div_def Math_round_def)
next
  case False
  with assms have S: "0 < S" by simp
  define n where "n = (S + 50) div 100"
  define r where "r = (S + 50) mod 100"
  define z :: rat where "z = of_int S / 100"
  have z: "0 < z" using S by (simp add: z_def)
  have Sr: "S + 50 = n * 100 + r" by (simp add: n_def r_def)
  have r: "0 \<le> r" "r \<le> 99" by (simp_all add: r_def)
  have zh: "z + 1 / 2 = of_int n + of_int r / 100"
  proof -
    have "z + 1 / 2 = of_int (S + 50) / 100" by (simp add: z_def)
    also have "\<dots> = of_int n + of_int r / 100" by (simp add: Sr)
    finally show ?thesis .
  qed
  show ?thesis
  proof (cases "r = 0")
    case True
    then have "S = 100 * n - 50" using Sr by simp
    then have zn: "z = of_int (2 * n - 1) / 2" by (simp add: z_def field_simps)
    have "0 < 2 * n - 1" "2 * n - 1 < 2 ^ 53" using S assms(2) \<open>S = 100 * n - 50\<close> by simp_all
    then have "fl z = z" unfolding zn by (rule fl_half_integer)
    then show ?thesis by (simp add: js_div_def z_def [symmetric] Math_round_def)
  next
    case False
    with r have r1: "1 \<le> r" by simp
    have "\<bar>fl z - z\<bar> \<le> z / 2 ^ 53" using z by (rule fl_error)
    moreover have "z / 2 ^ 53 \<le> 1 / 1000"
    proof -
      have "(of_int S :: rat) < of_int (2 ^ 45)" using assms(2) by (simp only: of_int_less_iff)
      then show ?thesis by (simp add: z_def)
    qed
    ultimately have err: "\<bar>fl z - z\<bar> \<le> 1 / 1000" by linarith
    have lo: "(1 / 100 :: rat) \<le> of_int r / 100" using r1 by simp
    have hi: "(of_int r / 100 :: rat) \<le> 99 / 100"
    proof -
      have "(of_int r :: rat) \<le> of_int 99" using r(2) by (simp only: of_int_le_iff)
      then show ?thesis by simp
    qed
    have "Math_round (fl z) = n"
      using err by (rule Math_round_close) (use zh lo hi in linarith)+
    moreover have "\<lfloor>z + 1 / 2\<rfloor> = n"
      by (rule floor_unique) (use zh lo hi in linarith)+
    ultimately show ?thesis by (simp add: js_div_def z_def)
  qed
qed

section \<open>Team performance\<close>

lemma onTime_count:
  "count_rows (\<lambda>t. t_assignedTo t = Some uid \<and> t_status t = Completed \<and>
                    (case (t_completedAt t, t_deadline t) of
                       (Some c, Some d) \<Rightarrow> c \<le> d
                     | _ \<Rightarrow> False)) (tasks s) = onTimeCompleted s uid"
proof -
  have "filter (\<lambda>t. t_assignedTo t = Some uid \<and> t_status t = Completed \<and>
                    (case (t_completedAt t, t_deadline t) of
                       (Some c, Some d) \<Rightarrow> c \<le> d
                     | _ \<Rightarrow> False)) (tasks s) = filter on_time (assigned s uid)"
    unfolding assigned_def filter_filter
    by (rule filter_cong) (auto simp: on_time_def split: option.splits)
  then show ?thesis by (simp add: count_rows_def onTimeCompleted_def)
qed

lemma total_count:
  "count_rows (\<lambda>t. t_assignedTo t = Some uid) (tasks s) = totalAssigned s uid"
  by (simp add: count_rows_def totalAssigned_def assigned_def)

lemma activity_count:
  "count_rows (\<lambda>a. a_userId a = uid) (taskActivities s) = activityRecords s uid"
  by (simp add: count_rows_def activityRecords_def)

lemma count_rows_range: "0 \<le> count_rows P xs" "count_rows P xs \<le> int (length xs)"
  by (simp_all add: count_rows_def)

lemma onTime_le_total: "onTimeCompleted s uid \<le> totalAssigned s uid"
  by (simp add: onTimeCompleted_def totalAssigned_def)

lemma totalAssigned_range: "0 \<le> totalAssigned s uid" "totalAssigned s uid \<le> int (length (tasks s))"
  by (simp_all add: totalAssigned_def assigned_def)

lemma onTimeCompleted_nonneg: "0 \<le> onTimeCompleted s uid"
  by (simp add: onTimeCompleted_def)

lemma onTimeCompletionRate_range:
  assumes "0 \<le> a" "a \<le> b"
  shows "0 \<le> onTimeCompletionRate a b" "onTimeCompletionRate a b \<le> 100"
  using rate_range [of a b] assms by (auto simp: onTimeCompletionRate_def)

lemma metrics_eq:
  "m_metrics (memberPerformance s u) =
     (let rate = onTimeCompletionRate (onTimeCompleted s (u_id u)) (totalAssigned s (u_id u));
          tc = count_rows (\<lambda>t. t_assignedTo t = Some (u_id u) \<and> t_status t = Completed) (tasks s);
          dc = count_rows (\<lambda>a. a = u_id u) (commentAuthors s);
          cs = min 100 (activityRecords s (u_id u))
      in \<lparr>tasksCompleted = tc, onTimeCompletion = rate, documentComments = dc,
          collaborationScore = cs,
          totalScore = Math_round (js_div (of_int (tc * 40 + rate * 30 + min (dc * 10) 100 * 15
                                                   + cs * 15)) 100)\<rparr>)"
  unfolding memberPerformance_def onTime_count total_count activity_count
  by (simp add: Let_def onTimeCompletionRate_def)

text \<open>
  C7, as amended. For every team member, with fewer than \<open>2\<^sup>3\<^sup>1\<close> tasks in the store:
  the collaboration score is the number of the member's activity records capped at 100;
  the total score is the weighted sum of the returned metrics over 100, rounded exactly;
  the on-time rate is 100 without tasks and otherwise \<^verbatim>\<open>Math.round\<close> of the binary64
  product \<^verbatim>\<open>(onTime / total) * 100\<close>, which is the exactly rounded percentage whenever the
  exact percentage is not half-way between two integers.
\<close>

theorem team_performance_metrics:
  assumes "u \<in> set (users s)" "u_role u = ''team_member''" "length (tasks s) < 2 ^ 31"
  shows "memberPerformance s u \<in> set (calculateTeamPerformance s)
    \<and> collaborationScore (m_metrics (memberPerformance s u)) = min 100 (activityRecords s (u_id u))
    \<and> totalScore (m_metrics (memberPerformance s u)) =
        spec_totalScore (tasksCompleted (m_metrics (memberPerformance s u)))
          (onTimeCompletion (m_metrics (memberPerformance s u)))
          (documentComments (m_metrics (memberPerformance s u)))
          (collaborationScore (m_metrics (memberPerformance s u)))
    \<and> onTimeCompletion (m_metrics (memberPerformance s u)) =
        (if totalAssigned s (u_id u) = 0 then 100
         else Math_round (js_mul (js_div (of_int (onTimeCompleted s (u_id u)))
                                         (of_int (totalAssigned s (u_id u)))) 100))
    \<and> (totalAssigned s (u_id u) = 0 \<or>
        (200 * onTimeCompleted s (u_id u) + totalAssigned s (u_id u))
           mod (2 * totalAssigned s (u_id u)) \<noteq> 0
       \<longrightarrow> onTimeCompletion (m_metrics (memberPerformance s u)) =
           spec_onTimeCompletion (onTimeCompleted s (u_id u)) (totalAssigned s (u_id u)))"
proof -
  let ?a = "onTimeCompleted s (u_id u)" and ?b = "totalAssigned s (u_id u)"
  let ?tc = "count_rows (\<lambda>t. t_assignedTo t = Some (u_id u) \<and> t_status t = Completed) (tasks s)"
  let ?dc = "count_rows (\<lambda>a. a = u_id u) (commentAuthors s)"
  let ?cs = "min 100 (activityRecords s (u_id u))"
  let ?S = "?tc * 40 + onTimeCompletionRate ?a ?b * 30 + min (?dc * 10) 100 * 15 + ?cs * 15"
  have len: "int (length (tasks s)) < 2 ^ 31"
  proof -
    have "int (length (tasks s)) < int (2 ^ 31)" using assms(3) by (simp only: of_nat_less_iff)
    then show ?thesis by simp
  qed
  have b: "0 \<le> ?b" "?b < 2 ^ 31"
    using totalAssigned_range [of s "u_id u"] len by linarith+
  have a: "0 \<le> ?a" "?a \<le> ?b"
    by (rule onTimeCompleted_nonneg, rule onTime_le_total)
  have tc: "0 \<le> ?tc" "?tc < 2 ^ 31"
    using count_rows_range [of "\<lambda>t. t_assignedTo t = Some (u_id u) \<and> t_status t = Completed" "tasks s"] len
    by linarith+
  have dc: "0 \<le> ?dc" by (rule count_rows_range)
  have cs: "0 \<le> ?cs" "?cs \<le> 100" by (simp_all add: activityRecords_def)
  have rate: "0 \<le> onTimeCompletionRate ?a ?b" "onTimeCompletionRate ?a ?b \<le> 100"
    using a by (rule onTimeCompletionRate_range)+
  have mn: "0 \<le> min (?dc * 10) 100" "min (?dc * 10) 100 \<le> 100" using dc by simp_all
  have S: "0 \<le> ?S" "?S < 2 ^ 45"
    using tc rate mn cs by simp_all
  have 1: "memberPerformance s u \<in> set (calculateTeamPerformance s)"
    using assms(1,2) by (simp add: calculateTeamPerformance_def)
  have 2: "totalScore (m_metrics (memberPerformance s u)) = \<lfloor>(of_int ?S / 100 + 1 / 2 :: rat)\<rfloor>"
    using score_exact [OF S] by (simp add: metrics_eq Let_def)
  have 3: "onTimeCompletion (m_metrics (memberPerformance s u)) = onTimeCompletionRate ?a ?b"
    by (simp add: metrics_eq Let_def)
  have 4: "onTimeCompletionRate ?a ?b = \<lfloor>(of_int ?a / of_int ?b * 100 + 1 / 2 :: rat)\<rfloor>"
    if "?b \<noteq> 0" "(200 * ?a + ?b) mod (2 * ?b) \<noteq> 0"
    using that a b rate_exact [of ?a ?b] by (simp add: onTimeCompletionRate_def)
  show ?thesis
    using 1 2 3 4 b(1)
    by (auto simp: metrics_eq Let_def spec_totalScore_def spec_onTimeCompletion_def
        nearest_integer_def onTimeCompletionRate_def)
qed

section \<open>Concrete runs\<close>

lemmas hub_defs = hub_world_def hub_store_def task_one_def ann_client_def bob_client_def
  open_socket_def update_message_def requested_def select_task_def


lemma hub_world_facts:
  "map_of (clients hub_world) ''c1'' = Some ann_client"
  "sockets hub_world ''c1'' = Some open_socket"
  "readyState open_socket = OPEN"
  "\<not> authPending open_socket"
  "select_task (db hub_world) 1 = Some task_one"
  "pending hub_world = []"
  "outbox hub_world = []"
  "c_userId ann_client = JNum 7"
  by (simp_all add: hub_defs)

lemma done_message_facts:
  "getProp done_message ''type'' = JStr ''task_update''"
  "getProp done_message ''taskId'' = JNum 1"
  "truthy (getProp done_message ''changes'')"
  "requested done_message = JStr (status_text Completed)"
  "completedAt_of iso_dates done_message = Some (Some 1704067200000)"
  "updatedAt_of iso_dates done_message = Some 1704067200000"
  by (simp_all add: done_message_def hub_defs completedAt_of_def updatedAt_of_def iso_dates_def)

lemma reopen_message_facts:
  "getProp reopen_message ''type'' = JStr ''task_update''"
  "getProp reopen_message ''taskId'' = JNum 1"
  "truthy (getProp reopen_message ''changes'')"
  "requested reopen_message = JStr (status_text Pending)"
  "completedAt_of iso_dates reopen_message = Some (Some 1704067200000)"
  "updatedAt_of iso_dates reopen_message = Some 1704067200000"
  by (simp_all add: reopen_message_def hub_defs completedAt_of_def updatedAt_of_def iso_dates_def)

lemma allowed_from_task_one:
  "Completed \<in> set (spec_allowed (t_status task_one))"
  "Pending \<in> set (spec_allowed (t_status task_one))"
  by (simp_all add: task_one_def spec_allowed_def)

text \<open>
  Ann completes task 1: the row is written, one activity record is appended, Bob's
  connection receives the event and Ann's the success.
\<close>

theorem task_update_accepted_witness:
  "map_of (clients hub_world) ''c1'' = Some ann_client
   \<and> select_task (db hub_world) 1 = Some task_one
   \<and> requested done_message = JStr (status_text Completed)
   \<and> Completed \<in> set (spec_allowed (t_status task_one))
   \<and> run iso_dates hub_world
         [Message ''c1'' (Json done_message), Resume 0 True 1, Resume 0 True 5000,
          Resume 0 True 6000] =
       hub_world
         \<lparr>db := hub_store
            \<lparr>tasks := [task_one\<lparr>t_status := Completed, t_completedAt := Some 1704067200000,
                                 t_updatedAt := 1704067200000\<rparr>],
             taskActivities :=
               [\<lparr>a_id = 1, a_taskId = 1, a_userId = 7,
                 a_action = ''Status changed from in_progress to completed'',
                 a_createdAt = 5000\<rparr>],
             activitySerial := 2\<rparr>,
          outbox :=
            [(''c2'', TaskUpdate
                (task_one\<lparr>t_status := Completed, t_completedAt := Some 1704067200000,
                           t_updatedAt := 1704067200000\<rparr>)
                \<lparr>ai_id = 1, ai_action = ''Status changed from in_progress to completed'',
                 ai_createdAt = 5000, ai_user_id = JNum 7, ai_user_username = JStr ''ann''\<rparr>),
             (''c1'', TaskUpdateSuccess
                (task_one\<lparr>t_status := Completed, t_completedAt := Some 1704067200000,
                           t_updatedAt := 1704067200000\<rparr>)
                \<lparr>ai_id = 1, ai_action = ''Status changed from in_progress to completed'',
                 ai_createdAt = 5000, ai_user_id = JNum 7, ai_user_username = JStr ''ann''\<rparr>)]\<rparr>"
proof -
  have ne: "''c1'' \<noteq> []" "(1::int) \<noteq> 0" by simp_all
  have r: "run iso_dates hub_world
         [Message ''c1'' (Json done_message), Resume 0 True 1, Resume 0 True 5000,
          Resume 0 True 6000] =
       hub_world
         \<lparr>db := hub_store
            \<lparr>tasks := [task_one\<lparr>t_status := Completed, t_completedAt := Some 1704067200000,
                                 t_updatedAt := 1704067200000\<rparr>],
             taskActivities :=
               [\<lparr>a_id = 1, a_taskId = 1, a_userId = 7,
                 a_action = ''Status changed from in_progress to completed'',
                 a_createdAt = 5000\<rparr>],
             activitySerial := 2\<rparr>,
          outbox :=
            [(''c2'', TaskUpdate
                (task_one\<lparr>t_status := Completed, t_completedAt := Some 1704067200000,
                           t_updatedAt := 1704067200000\<rparr>)
                \<lparr>ai_id = 1, ai_action = ''Status changed from in_progress to completed'',
                 ai_createdAt = 5000, ai_user_id = JNum 7, ai_user_username = JStr ''ann''\<rparr>),
             (''c1'', TaskUpdateSuccess
                (task_one\<lparr>t_status := Completed, t_completedAt := Some 1704067200000,
                           t_updatedAt := 1704067200000\<rparr>)
                \<lparr>ai_id = 1, ai_action = ''Status changed from in_progress to completed'',
                 ai_createdAt = 5000, ai_user_id = JNum 7, ai_user_username = JStr ''ann''\<rparr>)]\<rparr>"
    using task_update_accepted [OF hub_world_facts(1) ne(1) hub_world_facts(8)
        hub_world_facts(2,3,4) done_message_facts(1,2) ne(2) done_message_facts(3)
        hub_world_facts(5) done_message_facts(4) allowed_from_task_one(1)
        done_message_facts(5,6), of 1 5000 6000]
    by (simp add: hub_world_facts(6,7))
       (simp add: hub_defs Let_def set_columns_def activity_text_def info_of_def is_open_def
          done_message_def)
  show ?thesis
    using hub_world_facts(1,5) done_message_facts(4) allowed_from_task_one(1) r by blast
qed

text \<open>
  Ann moves task 1 from in_progress back to pending and her payload carries a
  \<^verbatim>\<open>completedAt\<close>: the pending task is stored with that completion timestamp.
\<close>

theorem completedAt_kept_when_reopened:
  "run iso_dates hub_world [Message ''c1'' (Json reopen_message), Resume 0 True 1, Resume 0 True 2]
     = hub_world
         \<lparr>db := hub_store
            \<lparr>tasks := [task_one\<lparr>t_status := Pending, t_completedAt := Some 1704067200000,
                                 t_updatedAt := 1704067200000\<rparr>]\<rparr>,
          pending := [AwaitInsert \<lparr>q_clientId = ''c1'', q_client = ann_client,
                                   q_message = reopen_message\<rparr> task_one
                        (Some (task_one\<lparr>t_status := Pending,
                                         t_completedAt := Some 1704067200000,
                                         t_updatedAt := 1704067200000\<rparr>)) 2]\<rparr>"
proof -
  have r: "run iso_dates hub_world
             (Message ''c1'' (Json reopen_message) # Resume (length (pending hub_world)) True 1 #
              [Resume 0 True 2]) =
           run iso_dates (hub_world\<lparr>pending := pending hub_world @
             [AwaitUpdate \<lparr>q_clientId = ''c1'', q_client = ann_client,
                q_message = reopen_message\<rparr> task_one]\<rparr>) [Resume 0 True 2]"
    by (rule task_update_reaches_update [where s = open_socket and i = 1 and st = Pending])
       (simp_all add: hub_world_facts reopen_message_facts allowed_from_task_one)
  have u: "after_update iso_dates hub_world
             \<lparr>q_clientId = ''c1'', q_client = ann_client, q_message = reopen_message\<rparr>
             task_one True 2 =
           hub_world\<lparr>db := fst (update_task (db hub_world) 1 Pending (Some 1704067200000)
                                  1704067200000),
             pending := pending hub_world @
               [AwaitInsert \<lparr>q_clientId = ''c1'', q_client = ann_client,
                  q_message = reopen_message\<rparr> task_one
                  (snd (update_task (db hub_world) 1 Pending (Some 1704067200000)
                          1704067200000)) 2]\<rparr>"
    by (rule after_update_writes)
       (simp_all add: reopen_message_facts status_of_jsval_def)
  show ?thesis
    using r u
    by (simp add: hub_world_facts(6) run_Cons run_Nil)
       (simp add: step_def resume_def hub_defs update_task_def set_columns_def)
qed

text \<open>Ann completes task 1 with a \<^verbatim>\<open>completedAt\<close>: that date is stored.\<close>

theorem update_persists_payload_witness:
  "map_of (clients hub_world) ''c1'' = Some ann_client
   \<and> select_task (db hub_world) 1 = Some task_one
   \<and> requested done_message = JStr (status_text Completed)
   \<and> Completed \<in> set (spec_allowed (t_status task_one))
   \<and> select_task (fst (update_task (db hub_world) 1 Completed (Some 1704067200000)
                          1704067200000)) 1 =
       Some (task_one\<lparr>t_status := Completed, t_completedAt := Some 1704067200000,
                      t_updatedAt := 1704067200000\<rparr>)
   \<and> truthy (getProp (getProp done_message ''changes'') ''completedAt'')
   \<and> new_Date iso_dates (getProp (getProp done_message ''changes'') ''completedAt'') =
       Some 1704067200000"
proof -
  have ne: "(1::int) \<noteq> 0" by simp
  note t = update_persists_payload [OF hub_world_facts(1,2,3,4) done_message_facts(1,2) ne
      done_message_facts(3) hub_world_facts(5) done_message_facts(4) allowed_from_task_one(1)
      done_message_facts(5,6), of 1 2]
  have c: "truthy (getProp (getProp done_message ''changes'') ''completedAt'')"
    by (simp add: done_message_def update_message_def)
  from t c have "new_Date iso_dates (getProp (getProp done_message ''changes'') ''completedAt'') =
       Some 1704067200000" by simp
  with t c show ?thesis
    using hub_world_facts(1,5) done_message_facts(4) allowed_from_task_one(1) by blast
qed

text \<open>A first frame that is not JSON: the parse error is reported and the socket closes.\<close>

lemma handshake_not_json_closes:
  assumes "sockets w c = Some s" "readyState s = OPEN" "authPending s"
    "map_of (clients w) c = None"
  shows "step dp w (Message c NotJson) =
     w\<lparr>sockets := (sockets w)(c \<mapsto> \<lparr>readyState = CLOSING, authPending = False\<rparr>),
       outbox := outbox w @
         [(c, ErrorMsg ''MESSAGE_PARSE_ERROR'' (Some ''Invalid message format''))]\<rparr>"
  using assms
  by (cases s) (simp add: step_def on_message_def on_auth_def ws_send_def ws_close_def is_open_def)

text \<open>
  C5. A first frame that is JSON but lacks \<^verbatim>\<open>username\<close>: the \<^verbatim>\<open>if\<close> of the handshake
  listener has no \<^verbatim>\<open>else\<close>, so nothing is registered and nothing is sent, as claimed, but
  the socket is not closed either: it stays open, with the listener used up.
\<close>

theorem handshake_without_username_stays_open:
  "sockets (run iso_dates (init hub_store)
             [Connect ''c1'', Message ''c1'' (Json (JObj [(''userId'', JNum 7)]))]) ''c1'' =
     Some \<lparr>readyState = OPEN, authPending = False\<rparr>
   \<and> clients (run iso_dates (init hub_store)
             [Connect ''c1'', Message ''c1'' (Json (JObj [(''userId'', JNum 7)]))]) = []
   \<and> outbox (run iso_dates (init hub_store)
             [Connect ''c1'', Message ''c1'' (Json (JObj [(''userId'', JNum 7)]))]) = []"
  by (simp add: run_def step_def init_def on_message_def on_auth_def)

text \<open>A frame \<^verbatim>\<open>{"type": "ping"}\<close> on Ann's connection: no frame is sent back.\<close>

theorem unknown_type_gets_no_reply:
  "step iso_dates hub_world (Message ''c1'' (Json ping_message)) = hub_world
   \<and> outbox hub_world = []"
  by (simp add: step_def on_message_def hub_defs ping_message_def)

text \<open>Both cases on Ann's connection.\<close>

theorem unparseable_or_unrecognized_message_witness:
  "map_of (clients hub_world) ''c1'' = Some ann_client
   \<and> sockets hub_world ''c1'' = Some open_socket
   \<and> step iso_dates hub_world (Message ''c1'' NotJson) =
       hub_world\<lparr>outbox :=
         [(''c1'', ErrorMsg ''MESSAGE_PARSE_ERROR'' (Some ''Invalid message format''))]\<rparr>
   \<and> ping_message \<noteq> JNull
   \<and> getProp ping_message ''type'' = JStr ''ping''
   \<and> step iso_dates hub_world (Message ''c1'' (Json ping_message)) = hub_world"
proof -
  note t = unparseable_or_unrecognized_message [OF hub_world_facts(1,2,3,4), of iso_dates
      ping_message]
  have p: "ping_message \<noteq> JNull" "getProp ping_message ''type'' = JStr ''ping''"
    by (simp_all add: ping_message_def)
  from t p have "step iso_dates hub_world (Message ''c1'' (Json ping_message)) = hub_world"
    by simp
  moreover from t have "step iso_dates hub_world (Message ''c1'' NotJson) =
       hub_world\<lparr>outbox :=
         [(''c1'', ErrorMsg ''MESSAGE_PARSE_ERROR'' (Some ''Invalid message format''))]\<rparr>"
    by (simp add: hub_world_facts(7))
  ultimately show ?thesis
    using hub_world_facts(1,2) p by blast
qed

lemma sprint_counts:
  "onTimeCompleted sprint_store 7 = 23" "totalAssigned sprint_store 7 = 40"
  by code_simp+

lemma percent_23_of_40: "Math_round (js_mul (js_div 23 40) 100) = 57"
  by code_simp

text \<open>
  23 of 40 tasks on time: the exact percentage is 57.5, which rounds to 58; the binary64
  quotient times 100 is 57.49999999999999, which \<^verbatim>\<open>Math.round\<close> takes to 57.
\<close>

theorem on_time_rate_differs_from_exact_rounding:
  "onTimeCompletion (m_metrics (memberPerformance sprint_store ann)) = 57
   \<and> spec_onTimeCompletion (onTimeCompleted sprint_store 7) (totalAssigned sprint_store 7) = 58"
proof -
  have "onTimeCompletion (m_metrics (memberPerformance sprint_store ann)) =
      onTimeCompletionRate (onTimeCompleted sprint_store 7) (totalAssigned sprint_store 7)"
    by (simp add: metrics_eq Let_def ann_def)
  then show ?thesis
    by (simp add: sprint_counts onTimeCompletionRate_def percent_23_of_40
        spec_onTimeCompletion_def nearest_integer_def)
qed

lemma review_counts:
  "onTimeCompleted review_store 7 = 5" "totalAssigned review_store 7 = 5"
  "activityRecords review_store 7 = 2"
  "count_rows (\<lambda>t. t_assignedTo t = Some 7 \<and> t_status t = Completed) (tasks review_store) = 5"
  "count_rows (\<lambda>a. a = 7) (commentAuthors review_store) = 3"
  by (simp_all add: onTimeCompleted_def totalAssigned_def assigned_def on_time_def
      review_store_def activityRecords_def count_rows_def)

lemma percent_5_of_5: "Math_round (js_mul (js_div 5 5) 100) = 100"
  by code_simp

lemma score_3680: "Math_round (js_div 3680 100) = 37"
  by code_simp

text \<open>
  Five of five tasks on time, three comments, two activity records: 100, 2 and 37.
\<close>

theorem team_performance_metrics_witness:
  "ann \<in> set (users review_store) \<and> u_role ann = ''team_member''
   \<and> length (tasks review_store) < 2 ^ 31
   \<and> memberPerformance review_store ann \<in> set (calculateTeamPerformance review_store)
   \<and> m_metrics (memberPerformance review_store ann) =
       \<lparr>tasksCompleted = 5, onTimeCompletion = 100, documentComments = 3,
        collaborationScore = 2, totalScore = 37\<rparr>
   \<and> spec_onTimeCompletion (onTimeCompleted review_store (u_id ann))
         (totalAssigned review_store (u_id ann)) = 100
   \<and> spec_totalScore 5 100 3 2 = 37"
proof -
  have h: "ann \<in> set (users review_store)" "u_role ann = ''team_member''"
    "length (tasks review_store) < 2 ^ 31"
    by (simp_all add: review_store_def ann_def)
  note t = team_performance_metrics [OF h]
  have m: "m_metrics (memberPerformance review_store ann) =
       \<lparr>tasksCompleted = 5, onTimeCompletion = 100, documentComments = 3,
        collaborationScore = 2, totalScore = 37\<rparr>"
    by (simp add: metrics_eq Let_def ann_def review_counts onTimeCompletionRate_def
        percent_5_of_5 score_3680)
  have u: "u_id ann = 7" by (simp add: ann_def)
  have s: "spec_onTimeCompletion (onTimeCompleted review_store (u_id ann))
         (totalAssigned review_store (u_id ann)) = 100"
    using t by (simp add: m u review_counts)
  have s2: "spec_totalScore 5 100 3 2 = 37"
    using t by (simp add: m)
  show ?thesis
    using h t m s s2 by blast
qed

text \<open>Bob's subscribed connection closes; Ann subscribes and the timer fires.\<close>

theorem no_dangling_subscription_witness:
  "sockets hub_world ''c2'' = Some open_socket \<and> readyState open_socket \<noteq> CLOSED
   \<and> subscribers_registered
        (run iso_dates (init hub_store)
          [Connect ''c3'', Message ''c3'' (Json carol_handshake),
           Message ''c3'' (Json subscribe_message), Close ''c3''])
   \<and> ''c2'' \<notin> set (performanceSubscribers (step iso_dates hub_world (Close ''c2'')))
   \<and> map_of (clients (step iso_dates hub_world (Close ''c2''))) ''c2'' = None
   \<and> filter (\<lambda>p. fst p = ''c2'')
        (outbox (deliverTeamPerformance
                  (run iso_dates (step iso_dates hub_world (Close ''c2''))
                     [Message ''c1'' (Json subscribe_message), Tick]))) =
      filter (\<lambda>p. fst p = ''c2'')
        (outbox (run iso_dates (step iso_dates hub_world (Close ''c2''))
                   [Message ''c1'' (Json subscribe_message), Tick]))"
proof -
  have h: "sockets hub_world ''c2'' = Some open_socket" "readyState open_socket \<noteq> CLOSED"
    by (simp_all add: hub_defs)
  note t = no_dangling_subscription [OF h, of iso_dates hub_store
      "[Connect ''c3'', Message ''c3'' (Json carol_handshake),
        Message ''c3'' (Json subscribe_message), Close ''c3'']"
      "[Message ''c1'' (Json subscribe_message), Tick]"]
  show ?thesis
    using h t by blast
qed

text \<open>Ann subscribes: Bob, subscribed before, and Ann both receive the snapshot.\<close>

theorem subscribe_broadcasts_witness:
  "map_of (clients hub_world) ''c1'' = Some ann_client
   \<and> sockets hub_world ''c1'' = Some open_socket
   \<and> getProp subscribe_message ''type'' = JStr ''subscribe_team_performance''
   \<and> subscribers_registered hub_world
   \<and> run iso_dates hub_world [Message ''c1'' (Json subscribe_message), Resume 0 True 5000] =
       hub_world\<lparr>performanceSubscribers := [''c2'', ''c1''],
         outbox := [(''c2'', TeamPerformance (calculateTeamPerformance hub_store)),
                    (''c1'', TeamPerformance (calculateTeamPerformance hub_store))]\<rparr>"
proof -
  have m: "getProp subscribe_message ''type'' = JStr ''subscribe_team_performance''"
    by (simp add: subscribe_message_def)
  have i: "subscribers_registered hub_world"
    by (simp add: subscribers_registered_def hub_defs)
  have r: "run iso_dates hub_world [Message ''c1'' (Json subscribe_message), Resume 0 True 5000] =
       hub_world\<lparr>performanceSubscribers := [''c2'', ''c1''],
         outbox := [(''c2'', TeamPerformance (calculateTeamPerformance hub_store)),
                    (''c1'', TeamPerformance (calculateTeamPerformance hub_store))]\<rparr>"
    using subscribe_broadcasts [OF hub_world_facts(1,2,3,4) m i, of iso_dates 5000]
    by (simp add: hub_world_facts(6,7)) (simp add: hub_defs set_add_def is_open_def)
  show ?thesis
    using hub_world_facts(1,2) m i r by blast
qed

text \<open>Task 1 is deleted while Ann's update is in flight.\<close>

theorem update_lost_task_witness:
  "map_of (clients hub_world) ''c1'' = Some ann_client
   \<and> select_task (db hub_world) 1 = Some task_one
   \<and> requested done_message = JStr (status_text Completed)
   \<and> Completed \<in> set (spec_allowed (t_status task_one))
   \<and> select_task empty_store 1 = None
   \<and> run iso_dates hub_world
         [Message ''c1'' (Json done_message), Resume 0 True 1, External empty_store,
          Resume 0 True 5000, Resume 0 True 6000] =
       hub_world
         \<lparr>db := empty_store
            \<lparr>taskActivities :=
               [\<lparr>a_id = 1, a_taskId = 1, a_userId = 7,
                 a_action = ''Status changed from in_progress to completed'',
                 a_createdAt = 5000\<rparr>],
             activitySerial := 2\<rparr>\<rparr>"
proof -
  have ne: "(1::int) \<noteq> 0" by simp
  have l: "select_task empty_store 1 = None"
    by (simp add: empty_store_def select_task_def)
  have r: "run iso_dates hub_world
         [Message ''c1'' (Json done_message), Resume 0 True 1, External empty_store,
          Resume 0 True 5000, Resume 0 True 6000] =
       hub_world
         \<lparr>db := empty_store
            \<lparr>taskActivities :=
               [\<lparr>a_id = 1, a_taskId = 1, a_userId = 7,
                 a_action = ''Status changed from in_progress to completed'',
                 a_createdAt = 5000\<rparr>],
             activitySerial := 2\<rparr>\<rparr>"
    using update_lost_task [OF hub_world_facts(1,8,2,3,4) done_message_facts(1,2) ne
        done_message_facts(3) hub_world_facts(5) done_message_facts(4) allowed_from_task_one(1)
        done_message_facts(5,6) l, of 1 5000 6000]
    by (simp add: hub_world_facts(6))
       (simp add: empty_store_def activity_text_def task_one_def done_message_def hub_defs)
  show ?thesis
    using hub_world_facts(1,5) done_message_facts(4) allowed_from_task_one(1) l r by blast
qed

text \<open>The world of the runs above, reached from the start by two handshakes and a subscription.\<close>

lemma hub_world_reached:
  "run iso_dates (init hub_store)
     [Connect ''c1'', Message ''c1'' (Json ann_handshake),
      Connect ''c2'', Message ''c2'' (Json bob_handshake),
      Message ''c2'' (Json subscribe_message), Resume 0 True 0] =
   hub_world\<lparr>outbox := [(''c1'', Connected), (''c2'', Connected),
                         (''c2'', TeamPerformance (calculateTeamPerformance hub_store))]\<rparr>"
  by (simp add: run_def step_def init_def on_message_def on_auth_def ws_send_def is_open_def
      ann_handshake_def bob_handshake_def subscribe_message_def hub_defs set_add_def resume_def
      deliverTeamPerformance_eq broadcastTeamPerformance_def fun_eq_iff)

end
